theory Spec2Isabelle
  imports Complex_Main "HOL-Library.Char_ord" "HOL-Library.List_Lexorder" "HOL-Library.Log_Nat"
begin

section \<open>JavaScript strings\<close>

text \<open>
  A JavaScript string is modelled as a \<^typ>\<open>string\<close>: the list of its code units, each
  below 256.  \<open>is_space\<close> is the set that \<open>String.prototype.trim\<close> strips and that the
  regular-expression class \<open>\s\<close> matches, restricted to that range: TAB, LF, VT, FF, CR,
  SPACE and NBSP.
\<close>

definition is_space :: "char \<Rightarrow> bool" where
  "is_space c = (c \<in> set [CHR 0x09, CHR 0x0A, CHR 0x0B, CHR 0x0C, CHR 0x0D, CHR 0x20, CHR 0xA0])"

definition trim :: "string \<Rightarrow> string" where
  "trim s = rev (dropWhile is_space (rev (dropWhile is_space s)))"

definition startsWith :: "string \<Rightarrow> string \<Rightarrow> bool" where
  "startsWith s p = (take (length p) s = p)"

text \<open>\<open>content.split('\n')\<close>: the pieces between line feeds; the empty string gives one
  empty piece.\<close>

fun split_lines :: "string \<Rightarrow> string list" where
  "split_lines [] = [[]]"
| "split_lines (c # cs) =
     (if c = CHR 0x0A then [] # split_lines cs
      else (case split_lines cs of [] \<Rightarrow> [[c]] | l # ls \<Rightarrow> (c # l) # ls))"

definition lower_letters :: string where
  "lower_letters = ''abcdefghijklmnopqrstuvwxyz''"

definition upper_letters :: string where
  "upper_letters = ''ABCDEFGHIJKLMNOPQRSTUVWXYZ''"

definition digit_chars :: string where
  "digit_chars = ''0123456789''"

definition latin_upper :: string where
  "latin_upper = [CHR 0xC0, CHR 0xC1, CHR 0xC2, CHR 0xC3, CHR 0xC4, CHR 0xC5, CHR 0xC6, CHR 0xC7, CHR 0xC8, CHR 0xC9, CHR 0xCA, CHR 0xCB, CHR 0xCC, CHR 0xCD, CHR 0xCE, CHR 0xCF, CHR 0xD0, CHR 0xD1, CHR 0xD2, CHR 0xD3, CHR 0xD4, CHR 0xD5, CHR 0xD6, CHR 0xD8, CHR 0xD9, CHR 0xDA, CHR 0xDB, CHR 0xDC, CHR 0xDD, CHR 0xDE]"

definition latin_lower :: string where
  "latin_lower = [CHR 0xE0, CHR 0xE1, CHR 0xE2, CHR 0xE3, CHR 0xE4, CHR 0xE5, CHR 0xE6, CHR 0xE7, CHR 0xE8, CHR 0xE9, CHR 0xEA, CHR 0xEB, CHR 0xEC, CHR 0xED, CHR 0xEE, CHR 0xEF, CHR 0xF0, CHR 0xF1, CHR 0xF2, CHR 0xF3, CHR 0xF4, CHR 0xF5, CHR 0xF6, CHR 0xF8, CHR 0xF9, CHR 0xFA, CHR 0xFB, CHR 0xFC, CHR 0xFD, CHR 0xFE]"

text \<open>
  \<open>toLowerCase\<close> on one code unit below 256: the ASCII and the Latin-1 capitals have a
  small form in that range.  \<open>toUpperCase\<close> is the canonical form that a regular expression
  with the \<open>i\<close> flag compares, and the function that \<open>generateViewNameFromPath\<close> applies
  to a character that matched \<open>\w\<close>; in both uses only the ASCII letters matter (a code
  unit from 128 on is never canonicalised to an ASCII one), so only they are mapped.
\<close>

definition toUpperCase :: "char \<Rightarrow> char" where
  "toUpperCase c = (case map_of (zip lower_letters upper_letters) c of Some u \<Rightarrow> u | None \<Rightarrow> c)"

definition toLowerCase :: "char \<Rightarrow> char" where
  "toLowerCase c =
     (case map_of (zip (upper_letters @ latin_upper) (lower_letters @ latin_lower)) c of
        Some l \<Rightarrow> l | None \<Rightarrow> c)"

text \<open>The class \<open>\w\<close>: \<open>[A-Za-z0-9_]\<close>.\<close>

definition is_word :: "char \<Rightarrow> bool" where
  "is_word c = (c \<in> set lower_letters \<or> c \<in> set upper_letters \<or> c \<in> set digit_chars \<or> c = CHR ''_'')"

section \<open>Node's \<open>path\<close> module (POSIX)\<close>

text \<open>
  \<open>path.basename\<close>, \<open>path.extname\<close> and \<open>path.dirname\<close> belong to the Node runtime; they
  are written here after Node's POSIX implementation.  \<open>last_component\<close> is the part of the
  path that the three functions scan: trailing slashes are skipped, then everything back to
  the previous slash is taken.
\<close>

definition is_slash :: "char \<Rightarrow> bool" where
  "is_slash c = (c = CHR ''/'')"

definition last_component :: "string \<Rightarrow> string" where
  "last_component p = rev (takeWhile (\<lambda>c. \<not> is_slash c) (dropWhile is_slash (rev p)))"

definition path_extname :: "string \<Rightarrow> string" where
  "path_extname p =
     (let b = last_component p in
      if CHR ''.'' \<notin> set b then []
      else let ext = CHR ''.'' # rev (takeWhile (\<lambda>c. c \<noteq> CHR ''.'') (rev b)) in
        if length ext = length b \<or> b = ''..'' then [] else ext)"

definition ends_with :: "string \<Rightarrow> string \<Rightarrow> bool" where
  "ends_with s suf = (length suf \<le> length s \<and> drop (length s - length suf) s = suf)"

text \<open>\<open>path.basename(p, suffix)\<close>.  When the last component is shorter than the suffix and
  agrees with its end, Node's scan never fixes an end index and returns the component
  together with the slashes that follow it.\<close>

definition path_basename :: "string \<Rightarrow> string \<Rightarrow> string" where
  "path_basename p suf =
     (let b = last_component p in
      if suf \<noteq> [] \<and> length suf \<le> length p then
        if suf = p then []
        else if ends_with b suf then
          (if b = suf then b else take (length b - length suf) b)
        else if ends_with suf b then
          b @ takeWhile is_slash (rev p)
        else b
      else b)"

definition path_dirname :: "string \<Rightarrow> string" where
  "path_dirname p =
     (case p of
        [] \<Rightarrow> ''.''
      | c # t \<Rightarrow>
          (let r = dropWhile (\<lambda>c. \<not> is_slash c) (dropWhile is_slash (rev t)) in
           if r = [] then (if is_slash c then ''/'' else ''.'')
           else if is_slash c \<and> length r = 1 then ''//''
           else take (length r) p))"

section \<open>Thrown values\<close>

text \<open>
  A thrown value is either an \<open>Error\<close> object with its message or any other value with
  its string rendering; \<open>error_text\<close> is the source's
  \<open>error instanceof Error ? error.message : String(error)\<close>.
\<close>

datatype thrown = Error string | NonError string

fun error_text :: "thrown \<Rightarrow> string" where
  "error_text (Error m) = m"
| "error_text (NonError s) = s"

section \<open>JavaScript numbers\<close>

text \<open>
  A JavaScript number is an IEEE 754 binary64 value: a finite value (a rational number; the
  zero with the sign bit set is \<open>MinusZero\<close>), one of the two infinities, or \<open>NaN\<close>.
  The result of an arithmetic operation is the exact result rounded to the nearest
  representable value, the one with the even significand when two are equally near.
\<close>

datatype number = Finite rat | MinusZero | PlusInfinity | MinusInfinity | NaN

text \<open>The binary exponent of a positive rational \<open>a\<close>: the \<open>e\<close> with
  \<open>2 ^ e \<le> a < 2 ^ (e + 1)\<close>.\<close>

definition exponent :: "rat \<Rightarrow> int" where
  "exponent a = (if 1 \<le> a then bitlen \<lfloor>a\<rfloor> - 1 else - bitlen (\<lceil>1 / a\<rceil> - 1))"

definition round_half_even :: "rat \<Rightarrow> int" where
  "round_half_even x =
     (let n = \<lfloor>x\<rfloor>; d = x - of_int n in
      if d < 1 / 2 then n else if 1 / 2 < d then n + 1 else if even n then n else n + 1)"

text \<open>
  Rounding of an exact result.  The significand has 53 bits, so the spacing of the doubles
  around a value of exponent \<open>e\<close> is \<open>2 ^ (e - 52)\<close>; below \<open>2 ^ - 1022\<close> (the
  subnormal range) it stays \<open>2 ^ - 1074\<close>.  \<open>m\<close> is the significand as an integer.  A result
  beyond the largest double, \<open>(2 ^ 53 - 1) * 2 ^ 971\<close>, is an infinity: that is an exponent
  above 1023, or the exponent 1023 with a significand rounded up to \<open>2 ^ 53\<close>.
\<close>

definition round64 :: "rat \<Rightarrow> number" where
  "round64 x =
     (let a = \<bar>x\<bar>;
          e = max (exponent a) (- 1022);
          m = round_half_even (a / 2 powi (e - 52))
      in if x = 0 then Finite 0
         else if m = 0 then (if x < 0 then MinusZero else Finite 0)
         else if 1023 < e \<or> (e = 1023 \<and> m = 9007199254740992)
           then (if x < 0 then MinusInfinity else PlusInfinity)
         else Finite ((if x < 0 then - 1 else 1) * of_int m * 2 powi (e - 52)))"

fun is_zero :: "number \<Rightarrow> bool" where
  "is_zero (Finite x) = (x = 0)"
| "is_zero MinusZero = True"
| "is_zero _ = False"

fun is_infinite :: "number \<Rightarrow> bool" where
  "is_infinite PlusInfinity = True"
| "is_infinite MinusInfinity = True"
| "is_infinite _ = False"

fun negative :: "number \<Rightarrow> bool" where
  "negative (Finite x) = (x < 0)"
| "negative MinusZero = True"
| "negative MinusInfinity = True"
| "negative _ = False"

fun finite_value :: "number \<Rightarrow> rat" where
  "finite_value (Finite x) = x"
| "finite_value _ = 0"

text \<open>The operators \<open>/\<close> and \<open>*\<close> on numbers.\<close>

definition number_divide :: "number \<Rightarrow> number \<Rightarrow> number" where
  "number_divide x y =
     (if x = NaN \<or> y = NaN \<or> (is_infinite x \<and> is_infinite y) \<or> (is_zero x \<and> is_zero y) then NaN
      else if is_infinite x \<or> is_zero y
        then (if negative x \<noteq> negative y then MinusInfinity else PlusInfinity)
      else if is_infinite y \<or> is_zero x
        then (if negative x \<noteq> negative y then MinusZero else Finite 0)
      else round64 (finite_value x / finite_value y))"

definition number_times :: "number \<Rightarrow> number \<Rightarrow> number" where
  "number_times x y =
     (if x = NaN \<or> y = NaN \<or> (is_infinite x \<and> is_zero y) \<or> (is_zero x \<and> is_infinite y) then NaN
      else if is_infinite x \<or> is_infinite y
        then (if negative x \<noteq> negative y then MinusInfinity else PlusInfinity)
      else if is_zero x \<or> is_zero y
        then (if negative x \<noteq> negative y then MinusZero else Finite 0)
      else round64 (finite_value x * finite_value y))"

section \<open>coverage.ts\<close>

record ExtensionStats =
  total :: nat
  covered :: nat

text \<open>
  A \<open>Set<string>\<close> is given by the list of its elements in iteration order, a
  \<open>Map\<close> by its entries in insertion order.  The counts \<open>totalFiles\<close> and
  \<open>coveredFiles\<close> are the size of a \<open>Set\<close> and the length of an array: integers
  below \<open>2 ^ 53\<close>, which are numbers without rounding (lemma \<open>count_is_number\<close>), so
  the model keeps them as natural numbers and takes \<open>Finite (of_nat n)\<close> for the number.  \<open>coveragePercentage\<close> is
  computed from them with the operators on numbers.
\<close>

record CoverageMetrics =
  totalFiles :: nat
  coveredFiles :: nat
  coveredFilesList :: "string list"
  uncoveredFiles :: "string list"
  coveragePercentage :: number
  filesByExtension :: "(string \<times> ExtensionStats) list"

text \<open>One iteration of the extension bookkeeping: create the entry when it is missing,
  add one to \<open>total\<close>, and one to \<open>covered\<close> when the file is referenced.\<close>

definition bump_extension :: "string \<Rightarrow> bool \<Rightarrow> (string \<times> ExtensionStats) list \<Rightarrow> (string \<times> ExtensionStats) list" where
  "bump_extension ext is_covered m =
     (let m' = (if ext \<in> fst ` set m then m else m @ [(ext, \<lparr>total = 0, covered = 0\<rparr>)]) in
      map (\<lambda>(k, st). if k = ext
             then (k, \<lparr>total = total st + 1, covered = (if is_covered then covered st + 1 else covered st)\<rparr>)
             else (k, st)) m')"

definition file_extension_key :: "string \<Rightarrow> string" where
  "file_extension_key file =
     (let e = map toLowerCase (path_extname file) in if e = [] then ''no-ext'' else e)"

definition calculateCoverageMetrics :: "string list \<Rightarrow> string list \<Rightarrow> CoverageMetrics" where
  "calculateCoverageMetrics sourceFiles referencedFiles =
     (let byExt = foldl (\<lambda>m file. bump_extension (file_extension_key file) (file \<in> set referencedFiles) m)
                    [] sourceFiles;
          coveredList = sort (filter (\<lambda>file. file \<in> set referencedFiles) sourceFiles);
          uncovered = sort (filter (\<lambda>file. file \<notin> set referencedFiles) sourceFiles);
          totalFiles = length sourceFiles;
          coveredFiles = length coveredList;
          coveragePercentage =
            (if totalFiles > 0
             then number_times (number_divide (Finite (of_nat coveredFiles)) (Finite (of_nat totalFiles)))
                    (Finite 100)
             else Finite 100)
      in \<lparr>totalFiles = totalFiles, coveredFiles = coveredFiles, coveredFilesList = coveredList,
          uncoveredFiles = uncovered, coveragePercentage = coveragePercentage,
          filesByExtension = byExt\<rparr>)"

section \<open>Regular expressions\<close>

text \<open>
  The fragment of JavaScript regular expressions that the program uses: literal characters,
  character classes, greedy \<open>+\<close> and \<open>*\<close> on a single-character atom, sequence, ordered
  alternation, capture groups and the anchors \<open>^\<close> and \<open>$\<close> (without the \<open>m\<close> flag).
\<close>

datatype class_item = Chars string | WhiteSpace

datatype atom = Lit char | OneOf "class_item list" | NoneOf "class_item list"

datatype regex =
    Eps
  | Atom atom
  | Plus atom
  | Star atom
  | Seq regex regex
  | Alt regex regex
  | Group nat regex
  | Bol
  | Eol

text \<open>With the \<open>i\<close> flag two characters match when their canonical (upper-case) forms
  agree.\<close>

definition char_eq :: "bool \<Rightarrow> char \<Rightarrow> char \<Rightarrow> bool" where
  "char_eq ic c d = (if ic then toUpperCase c = toUpperCase d else c = d)"

fun item_matches :: "bool \<Rightarrow> class_item \<Rightarrow> char \<Rightarrow> bool" where
  "item_matches ic (Chars s) c = list_ex (char_eq ic c) s"
| "item_matches ic WhiteSpace c = is_space c"

fun atom_matches :: "bool \<Rightarrow> atom \<Rightarrow> char \<Rightarrow> bool" where
  "atom_matches ic (Lit d) c = char_eq ic c d"
| "atom_matches ic (OneOf items) c = list_ex (\<lambda>it. item_matches ic it c) items"
| "atom_matches ic (NoneOf items) c = (\<not> list_ex (\<lambda>it. item_matches ic it c) items)"

type_synonym captures = "(nat \<times> string) list"

text \<open>
  \<open>rmatch ic n r (s, caps)\<close> lists, in the order in which a backtracking matcher tries
  them, the ways in which \<open>r\<close> matches a prefix of the remaining input \<open>s\<close>: each result is
  the input left over and the captures made.  \<open>n\<close> is the length of the whole subject, so
  that \<open>^\<close> can tell the start.  The head of the list is the match that \<open>exec\<close> reports.
\<close>

fun rmatch :: "bool \<Rightarrow> nat \<Rightarrow> regex \<Rightarrow> string \<times> captures \<Rightarrow> (string \<times> captures) list" where
  "rmatch ic n Eps st = [st]"
| "rmatch ic n (Atom a) (s, caps) =
     (case s of [] \<Rightarrow> [] | x # xs \<Rightarrow> if atom_matches ic a x then [(xs, caps)] else [])"
| "rmatch ic n (Plus a) (s, caps) =
     map (\<lambda>j. (drop j s, caps)) (rev [1 ..< Suc (length (takeWhile (atom_matches ic a) s))])"
| "rmatch ic n (Star a) (s, caps) =
     map (\<lambda>j. (drop j s, caps)) (rev [0 ..< Suc (length (takeWhile (atom_matches ic a) s))])"
| "rmatch ic n (Seq r1 r2) st = concat (map (rmatch ic n r2) (rmatch ic n r1 st))"
| "rmatch ic n (Alt r1 r2) st = rmatch ic n r1 st @ rmatch ic n r2 st"
| "rmatch ic n (Group g r) (s, caps) =
     map (\<lambda>(s', caps'). (s', (g, take (length s - length s') s) # caps')) (rmatch ic n r (s, caps))"
| "rmatch ic n Bol (s, caps) = (if length s = n then [(s, caps)] else [])"
| "rmatch ic n Eol (s, caps) = (if s = [] then [(s, caps)] else [])"

text \<open>\<open>search\<close> tries the start positions from the current one to the end of the subject
  and returns the suffix where the match starts, the suffix after it, and the captures.\<close>

fun search :: "bool \<Rightarrow> nat \<Rightarrow> regex \<Rightarrow> string \<Rightarrow> (string \<times> string \<times> captures) option" where
  "search ic n r s =
     (case rmatch ic n r (s, []) of
        (s', caps) # _ \<Rightarrow> Some (s, s', caps)
      | [] \<Rightarrow> (case s of [] \<Rightarrow> None | _ # t \<Rightarrow> search ic n r t))"

text \<open>
  \<open>while ((match = pattern.exec(line)) !== null)\<close> with the \<open>g\<close> flag: every match starts
  the next search where it ended.  A match that leaves \<open>lastIndex\<close> where it was would
  make the source loop forever; the patterns of this program consume at least one character
  (lemma \<open>filePatterns_consume\<close>), so the last branch is never taken for them.
\<close>

function exec_all :: "bool \<Rightarrow> nat \<Rightarrow> regex \<Rightarrow> string \<Rightarrow> captures list" where
  "exec_all ic n r s =
     (case search ic n r s of
        None \<Rightarrow> []
      | Some (start, s', caps) \<Rightarrow>
          caps # (if length s' < length s then exec_all ic n r s' else []))"
  by pat_completeness auto
termination
  by (relation "measure (\<lambda>(ic, n, r, s). length s)") auto

declare search.simps [simp del] exec_all.simps [simp del]

text \<open>The least number of characters that a match of a pattern consumes.\<close>

fun min_width :: "regex \<Rightarrow> nat" where
  "min_width Eps = 0"
| "min_width (Atom a) = 1"
| "min_width (Plus a) = 1"
| "min_width (Star a) = 0"
| "min_width (Seq r1 r2) = min_width r1 + min_width r2"
| "min_width (Alt r1 r2) = min (min_width r1) (min_width r2)"
| "min_width (Group g r) = min_width r"
| "min_width Bol = 0"
| "min_width Eol = 0"

definition seq :: "regex list \<Rightarrow> regex" where
  "seq rs = foldr Seq rs Eps"

definition str :: "string \<Rightarrow> regex" where
  "str s = seq (map (\<lambda>c. Atom (Lit c)) s)"

definition alts :: "regex list \<Rightarrow> regex" where
  "alts rs = (case rs of [] \<Rightarrow> Eps | _ \<Rightarrow> foldr Alt (butlast rs) (last rs))"

text \<open>\<open>match[g]\<close>: the text of group \<open>g\<close>, or nothing when the group took no part.\<close>

definition group :: "captures \<Rightarrow> nat \<Rightarrow> string option" where
  "group caps g = map_of caps g"

section \<open>Plain objects used as dictionaries\<close>

text \<open>
  \<open>referenceGroups\<close> is a plain object, \<open>Record<string, CodebaseViewFileCell>\<close>.  It is
  modelled by the list of its own properties in creation order.  \<open>obj[k] = v\<close> replaces
  the value of an existing property in place and appends a new one; the key
  \<open>__proto__\<close> is the accessor inherited from \<open>Object.prototype\<close>, so assigning an
  object to it changes the prototype and creates no property.  \<open>Object.keys\<close> lists the
  keys that are array indices first, in ascending numeric order, then the others in
  creation order.
\<close>

definition js_set :: "(string \<times> 'v) list \<Rightarrow> string \<Rightarrow> 'v \<Rightarrow> (string \<times> 'v) list" where
  "js_set obj k v =
     (if k = ''__proto__'' then obj
      else if k \<in> fst ` set obj then map (\<lambda>(k', v'). if k' = k then (k', v) else (k', v')) obj
      else obj @ [(k, v)])"

definition digit_value :: "char \<Rightarrow> int" where
  "digit_value c = (case map_of (zip digit_chars [0, 1, 2, 3, 4, 5, 6, 7, 8, 9]) c of Some d \<Rightarrow> d | None \<Rightarrow> 0)"

definition decimal_value :: "string \<Rightarrow> int" where
  "decimal_value s = foldl (\<lambda>n c. 10 * n + digit_value c) 0 s"

definition is_array_index :: "string \<Rightarrow> bool" where
  "is_array_index s =
     (s \<noteq> [] \<and> list_all (\<lambda>c. c \<in> set digit_chars) s \<and> (s = ''0'' \<or> hd s \<noteq> CHR ''0'')
      \<and> decimal_value s < 4294967295)"

definition object_entries :: "(string \<times> 'v) list \<Rightarrow> (string \<times> 'v) list" where
  "object_entries obj =
     sort_key (\<lambda>(k, v). decimal_value k) (filter (\<lambda>(k, v). is_array_index k) obj)
     @ filter (\<lambda>(k, v). \<not> is_array_index k) obj"

definition object_keys :: "(string \<times> 'v) list \<Rightarrow> string list" where
  "object_keys obj = map fst (object_entries obj)"

section \<open>documentParser.ts\<close>

record CodebaseViewFileCell =
  coordinates :: "nat \<times> nat"
  files :: "string list"
  priority :: nat

record ExtractedStructure =
  name :: string
  description :: string
  referenceGroups :: "(string \<times> CodebaseViewFileCell) list"
  rows :: nat
  cols :: nat

text \<open>The two calls into the Node runtime that the parser makes: \<open>path.join\<close> and
  \<open>fs.existsSync\<close>.  They are parameters of the model.\<close>

record node_fs =
  path_join :: "string \<Rightarrow> string \<Rightarrow> string"
  existsSync :: "string \<Rightarrow> bool"

definition placeholder :: string where
  "placeholder = ''Codebase View''"

definition default_description :: string where
  "default_description = ''Codebase view extracted from documentation''"

definition extension :: regex where
  "extension = alts (map str [''ts'', ''tsx'', ''js'', ''jsx'', ''mjs'', ''cjs'', ''json'', ''yaml'',
     ''yml'', ''md'', ''txt'', ''css'', ''scss'', ''html''])"

text \<open>The four patterns of \<open>filePatterns\<close>, in the source's order: inline code, bold,
  markdown link, bare path.  The groups are numbered by their opening parenthesis.\<close>

definition code_pattern :: regex where
  "code_pattern = seq [Atom (Lit CHR 0x60),
     Group 1 (seq [Plus (NoneOf [Chars [CHR 0x60]]), Atom (Lit CHR ''.''), Group 2 extension]),
     Atom (Lit CHR 0x60)]"

definition bold_pattern :: regex where
  "bold_pattern = seq [str ''**'',
     Group 1 (seq [Plus (NoneOf [Chars ''*'']), Atom (Lit CHR ''.''), Group 2 extension]),
     str ''**'']"

definition link_pattern :: regex where
  "link_pattern = seq [Atom (Lit CHR ''[''), Group 1 (Plus (NoneOf [Chars '']''])), Atom (Lit CHR '']''),
     Atom (Lit CHR ''(''),
     Group 2 (seq [Plus (NoneOf [Chars '')'']), Atom (Lit CHR ''.''), Group 3 extension]),
     Atom (Lit CHR '')'')]"

definition bare_pattern :: regex where
  "bare_pattern = seq [Alt Bol (Atom (OneOf [WhiteSpace])),
     Group 1 (seq [Plus (OneOf [Chars lower_letters, Chars upper_letters, Chars digit_chars, Chars ''_-/.'']),
                   Atom (Lit CHR ''.''), Group 2 extension]),
     Alt (Atom (OneOf [WhiteSpace])) Eol]"

definition filePatterns :: "regex list" where
  "filePatterns = [code_pattern, bold_pattern, link_pattern, bare_pattern]"

text \<open>\<open>line.replace(/^#+\s*/, '')\<close>: the first match is cut out of the line.\<close>

definition heading_marks :: regex where
  "heading_marks = seq [Bol, Plus (Lit CHR ''#''), Star (OneOf [WhiteSpace])]"

definition strip_heading_marks :: "string \<Rightarrow> string" where
  "strip_heading_marks line =
     (case search False (length line) heading_marks line of
        None \<Rightarrow> line
      | Some (start, rest, caps) \<Rightarrow> take (length line - length start) line @ rest)"

text \<open>
  The body of the \<open>while\<close> loop for one match.  \<open>match[2] || match[1]\<close> takes group 2
  unless it is undefined or empty.  \<open>if (repositoryPath)\<close> holds for a path that is given
  and not the empty string.
\<close>

definition match_file_path :: "captures \<Rightarrow> string option" where
  "match_file_path caps =
     (case group caps 2 of
        Some p \<Rightarrow> if p \<noteq> [] then Some p else group caps 1
      | None \<Rightarrow> group caps 1)"

definition add_match :: "node_fs \<Rightarrow> string option \<Rightarrow> string list \<Rightarrow> captures \<Rightarrow> string list" where
  "add_match fs repositoryPath currentFiles caps =
     (case match_file_path caps of
        None \<Rightarrow> currentFiles
      | Some filePath \<Rightarrow>
          if filePath \<noteq> [] \<and> \<not> startsWith filePath ''http'' \<and> \<not> startsWith filePath ''//'' then
            (let cleanPath = trim filePath in
             if (case repositoryPath of
                   Some repo \<Rightarrow> repo \<noteq> [] \<and> \<not> existsSync fs (path_join fs repo cleanPath)
                 | None \<Rightarrow> False)
             then currentFiles
             else if cleanPath \<notin> set currentFiles then currentFiles @ [cleanPath]
             else currentFiles)
          else currentFiles)"

definition scan_line :: "node_fs \<Rightarrow> string option \<Rightarrow> string \<Rightarrow> string list \<Rightarrow> string list" where
  "scan_line fs repositoryPath line currentFiles =
     foldl (\<lambda>acc pattern. foldl (add_match fs repositoryPath) acc (exec_all True (length line) pattern line))
       currentFiles filePatterns"

record parser_state =
  p_name :: string
  p_description :: string
  inDescription :: bool
  currentSection :: string
  currentFiles :: "string list"
  sectionIndex :: nat
  maxRow :: nat
  maxCol :: nat
  p_referenceGroups :: "(string \<times> CodebaseViewFileCell) list"

definition initial_state :: parser_state where
  "initial_state = \<lparr>p_name = placeholder, p_description = [], inDescription = False,
     currentSection = [], currentFiles = [], sectionIndex = 0, maxRow = 0, maxCol = 0,
     p_referenceGroups = []\<rparr>"

text \<open>``Save previous section if it has files'': the block that the loop body and the
  code after the loop share.  Only the one in the loop adds 1 to \<open>sectionIndex\<close>.\<close>

definition save_section :: "parser_state \<Rightarrow> parser_state" where
  "save_section st =
     (if currentSection st \<noteq> [] \<and> length (currentFiles st) > 0 then
        (let row = sectionIndex st div 3; col = sectionIndex st mod 3 in
         st\<lparr>maxRow := max (maxRow st) row, maxCol := max (maxCol st) col,
            p_referenceGroups := js_set (p_referenceGroups st) (currentSection st)
               \<lparr>coordinates = (row, col), files = currentFiles st, priority = 0\<rparr>\<rparr>)
      else st)"

definition describe_line :: "string \<Rightarrow> parser_state \<Rightarrow> parser_state" where
  "describe_line line st =
     (if inDescription st \<and> line \<noteq> [] \<and> \<not> startsWith line ''#'' then
        st\<lparr>p_description := (if p_description st \<noteq> [] then p_description st @ '' '' else p_description st) @ line\<rparr>
      else if inDescription st \<and> (startsWith line ''#'' \<or> line = []) then
        st\<lparr>inDescription := False\<rparr>
      else st)"

text \<open>The body of the \<open>for\<close> loop over the lines.\<close>

definition parse_line :: "node_fs \<Rightarrow> string option \<Rightarrow> parser_state \<Rightarrow> string \<Rightarrow> parser_state" where
  "parse_line fs repositoryPath st raw =
     (let line = trim raw in
      if startsWith line ''# '' \<and> p_name st = placeholder then
        st\<lparr>p_name := trim (drop 2 line), inDescription := True\<rparr>
      else
        (let st1 = describe_line line st in
         if startsWith line ''## '' \<or> startsWith line ''### '' then
           (let st2 = (if currentSection st1 \<noteq> [] \<and> length (currentFiles st1) > 0
                       then (save_section st1)\<lparr>sectionIndex := sectionIndex st1 + 1\<rparr> else st1)
            in st2\<lparr>currentSection := trim (strip_heading_marks line), currentFiles := []\<rparr>)
         else st1\<lparr>currentFiles := scan_line fs repositoryPath line (currentFiles st1)\<rparr>))"

definition extractStructureFromMarkdown :: "node_fs \<Rightarrow> string \<Rightarrow> string option \<Rightarrow> ExtractedStructure" where
  "extractStructureFromMarkdown fs content repositoryPath =
     (let st = save_section (foldl (parse_line fs repositoryPath) initial_state (split_lines content));
          nkeys = length (object_keys (p_referenceGroups st))
      in \<lparr>name = (if p_name st \<noteq> [] then p_name st else placeholder),
          description = (if p_description st \<noteq> [] then p_description st else default_description),
          referenceGroups = p_referenceGroups st,
          rows = (if nkeys > 0 then maxRow st + 1 else 1),
          cols = (if nkeys > 0 then min (maxCol st + 1) 3 else 1)\<rparr>)"

section \<open>The structure of a document\<close>

text \<open>
  The specification describes the parser by what a document consists of: a title, a first
  paragraph, and sections that own the lines up to the next section heading.  The
  definitions of this section follow those words; the theorems below compare them with the
  loop.  All of them work on the trimmed lines.
\<close>

definition document_lines :: "string \<Rightarrow> string list" where
  "document_lines content = map trim (split_lines content)"

definition is_title_line :: "string \<Rightarrow> bool" where
  "is_title_line l = startsWith l ''# ''"

definition title_text :: "string \<Rightarrow> string" where
  "title_text l = trim (drop 2 l)"

text \<open>The heading texts of the level-1 headings of a document, in order.\<close>

definition level1_titles :: "string list \<Rightarrow> string list" where
  "level1_titles ls = map title_text (filter is_title_line ls)"

text \<open>The lines after the first level-1 heading, and the paragraph they start with: the
  lines up to the first one that is blank or begins with \<open>#\<close>.\<close>

definition after_title :: "string list \<Rightarrow> string list" where
  "after_title ls = tl (dropWhile (\<lambda>l. \<not> is_title_line l) ls)"

definition is_text_line :: "string \<Rightarrow> bool" where
  "is_text_line l = (l \<noteq> [] \<and> \<not> startsWith l ''#'')"

definition first_paragraph :: "string list \<Rightarrow> string list" where
  "first_paragraph ls = takeWhile is_text_line (after_title ls)"

fun space_join :: "string list \<Rightarrow> string" where
  "space_join [] = []"
| "space_join [l] = l"
| "space_join (l # l' # ls) = l @ '' '' @ space_join (l' # ls)"

definition is_section_heading :: "string \<Rightarrow> bool" where
  "is_section_heading l = (startsWith l ''## '' \<or> startsWith l ''### '')"

definition section_label :: "string \<Rightarrow> string" where
  "section_label l = trim (strip_heading_marks l)"

text \<open>The lines that reach the section scanner: a level-1 heading met while the name is
  still the placeholder is used up as the title.\<close>

fun untitled_lines :: "string \<Rightarrow> string list \<Rightarrow> string list" where
  "untitled_lines nm [] = []"
| "untitled_lines nm (l # ls) =
     (if is_title_line l \<and> nm = placeholder then untitled_lines (title_text l) ls
      else l # untitled_lines nm ls)"

text \<open>
  The sections with the lines of their bodies.  A section heading closes the section in
  progress and opens the next; any other line joins the body of the section in progress.
  The first section, with the empty label, holds the lines before the first heading.
\<close>

fun sections_acc :: "string \<times> string list \<Rightarrow> string list \<Rightarrow> (string \<times> string list) list" where
  "sections_acc (label, body) [] = [(label, body)]"
| "sections_acc (label, body) (l # ls) =
     (if is_section_heading l then (label, body) # sections_acc (section_label l, []) ls
      else sections_acc (label, body @ [l]) ls)"

text \<open>What one match contributes (nothing or one path), and the paths found on a line in
  the order of discovery: pattern by pattern, match by match.\<close>

definition accepted :: "node_fs \<Rightarrow> string option \<Rightarrow> captures \<Rightarrow> string list" where
  "accepted fs repositoryPath caps =
     (case match_file_path caps of
        None \<Rightarrow> []
      | Some fp \<Rightarrow>
          if fp \<noteq> [] \<and> \<not> startsWith fp ''http'' \<and> \<not> startsWith fp ''//'' then
            (if (case repositoryPath of
                   Some repo \<Rightarrow> repo \<noteq> [] \<and> \<not> existsSync fs (path_join fs repo (trim fp))
                 | None \<Rightarrow> False)
             then [] else [trim fp])
          else [])"

definition candidates :: "node_fs \<Rightarrow> string option \<Rightarrow> string \<Rightarrow> string list" where
  "candidates fs repositoryPath line =
     concat (map (\<lambda>pattern. concat (map (accepted fs repositoryPath)
                                 (exec_all True (length line) pattern line))) filePatterns)"

text \<open>A list without its repetitions: every element stays where it first occurs.\<close>

function first_seen :: "'a list \<Rightarrow> 'a list" where
  "first_seen [] = []"
| "first_seen (x # xs) = x # first_seen (filter (\<lambda>y. y \<noteq> x) xs)"
  by pat_completeness auto
termination
  by (relation "measure length") (auto simp add: less_Suc_eq_le)

definition section_files :: "node_fs \<Rightarrow> string option \<Rightarrow> string list \<Rightarrow> string list" where
  "section_files fs repositoryPath body = first_seen (concat (map (candidates fs repositoryPath) body))"

definition document_bodies :: "string \<Rightarrow> (string \<times> string list) list" where
  "document_bodies content = sections_acc ([], []) (untitled_lines placeholder (document_lines content))"

definition document_sections :: "node_fs \<Rightarrow> string option \<Rightarrow> string \<Rightarrow> (string \<times> string list) list" where
  "document_sections fs repositoryPath content =
     map (\<lambda>(label, body). (label, section_files fs repositoryPath body)) (document_bodies content)"

text \<open>The sections that are flushed: those with a label and at least one file.\<close>

definition emitted_sections :: "node_fs \<Rightarrow> string option \<Rightarrow> string \<Rightarrow> (string \<times> string list) list" where
  "emitted_sections fs repositoryPath content =
     filter (\<lambda>(label, fls). label \<noteq> [] \<and> fls \<noteq> []) (document_sections fs repositoryPath content)"

text \<open>Grid assignment: the section flushed as number \<open>i\<close> is stored under its label with
  the coordinates \<open>(i div 3, i mod 3)\<close>.\<close>

definition grid_cell :: "nat \<Rightarrow> string list \<Rightarrow> CodebaseViewFileCell" where
  "grid_cell i fls = \<lparr>coordinates = (i div 3, i mod 3), files = fls, priority = 0\<rparr>"

fun place_from :: "nat \<Rightarrow> (string \<times> CodebaseViewFileCell) list \<Rightarrow> (string \<times> string list) list
    \<Rightarrow> (string \<times> CodebaseViewFileCell) list" where
  "place_from i obj [] = obj"
| "place_from i obj ((label, fls) # rest) = place_from (Suc i) (js_set obj label (grid_cell i fls)) rest"

text \<open>A label that \<open>Object.keys\<close> lists in creation order.\<close>

definition ordinary_key :: "string \<Rightarrow> bool" where
  "ordinary_key k = (k \<noteq> ''__proto__'' \<and> \<not> is_array_index k)"

text \<open>Auxiliary forms for the induction over the lines: the push of one path, and the
  flushed sections of the rest of a document when the scan stands in the middle of a
  section.\<close>

definition add_unique :: "string list \<Rightarrow> string \<Rightarrow> string list" where
  "add_unique fls p = (if p \<notin> set fls then fls @ [p] else fls)"

definition emitted_from :: "node_fs \<Rightarrow> string option \<Rightarrow> string \<Rightarrow> string \<times> string list \<Rightarrow> string list
    \<Rightarrow> (string \<times> string list) list" where
  "emitted_from fs repo nm sec ls =
     filter (\<lambda>(label, fls). label \<noteq> [] \<and> fls \<noteq> [])
       (map (\<lambda>(label, body). (label, section_files fs repo body))
          (sections_acc sec (untitled_lines nm ls)))"

text \<open>The update of the description by one line of the first paragraph.\<close>

definition join_line :: "string \<Rightarrow> string \<Rightarrow> string" where
  "join_line d l = (if d \<noteq> [] then d @ '' '' else d) @ l"

section \<open>The core library\<close>

text \<open>
  \<open>MemoryPalace\<close>, \<open>NodeFileSystemAdapter\<close> and \<open>generateViewIdFromName\<close> come from
  \<open>@principal-ai/alexandria-core-library\<close>.  The program only calls them, so they are
  parameters of the model.  \<open>'w\<close> is the state of the world outside the program (the disk
  and the view store).  A call that can throw returns a sum, \<open>Inl\<close> the thrown value; a
  call that writes also returns the world it leaves behind.
\<close>

typedecl issue

record ValidationCounts =
  errors :: nat
  warnings :: nat
  info :: nat

record UiMetadata =
  ui_enabled :: bool
  ui_rows :: nat
  ui_cols :: nat
  showCellLabels :: bool
  cellLabelPosition :: string

record ViewMetadata =
  generationType :: string
  ui :: UiMetadata

text \<open>The fields of \<open>CodebaseView\<close> carry the prefix \<open>view_\<close>, those of the validation
  records \<open>vr_\<close>, because a field name can belong to one record only;
  \<open>res_file\<close> is the field \<open>file\<close> and \<open>issue_count\<close> the field \<open>issues\<close> of
  \<open>ViewCreationResult\<close>.\<close>

record CodebaseView =
  view_id :: string
  view_version :: string
  view_name :: string
  view_description :: string
  view_rows :: nat
  view_cols :: nat
  view_referenceGroups :: "(string \<times> CodebaseViewFileCell) list"
  view_overviewPath :: string
  view_category :: string
  view_displayOrder :: nat
  view_timestamp :: string
  view_metadata :: ViewMetadata

record ValidationResult =
  isValid :: bool
  issues :: "issue list"
  validatedView :: CodebaseView
  summary :: ValidationCounts

record 'w host =
  construct :: "'w \<Rightarrow> string \<Rightarrow> (thrown + unit) \<times> 'w"
  validateRelativePath :: "'w \<Rightarrow> string \<Rightarrow> string \<Rightarrow> thrown + string"
  adapter_exists :: "'w \<Rightarrow> string \<Rightarrow> bool"
  readFileSync :: "'w \<Rightarrow> string \<Rightarrow> thrown + string"
  node :: "'w \<Rightarrow> node_fs"
  generateViewIdFromName :: "string \<Rightarrow> string"
  now_iso :: "'w \<Rightarrow> string"
  saveView :: "'w \<Rightarrow> CodebaseView \<Rightarrow> (thrown + unit) \<times> 'w"
  saveViewWithValidation :: "'w \<Rightarrow> CodebaseView \<Rightarrow> (thrown + ValidationResult) \<times> 'w"
  listViews :: "'w \<Rightarrow> thrown + CodebaseView list"
  validateView :: "'w \<Rightarrow> CodebaseView \<Rightarrow> thrown + ValidationResult"

section \<open>viewCreation.ts\<close>

record UntrackedDocumentInfo =
  filePath :: string
  relativePath :: string
  fullPath :: string

record ViewCreationResult =
  res_file :: string
  success :: bool
  viewName :: "string option"
  viewId :: "string option"
  error :: "string option"
  issue_count :: "nat option"
  view :: "CodebaseView option"

record ViewCreationOptions =
  opt_category :: "string option"
  skipValidation :: bool
  dryRun :: bool
  opt_name :: "string option"
  opt_description :: "string option"

text \<open>\<open>a || b\<close> on strings that may be undefined: \<open>a\<close> unless it is undefined or
  empty.\<close>

definition or_else :: "string option \<Rightarrow> string \<Rightarrow> string" where
  "or_else a b = (case a of Some x \<Rightarrow> if x \<noteq> [] then x else b | None \<Rightarrow> b)"

text \<open>\<open>s.replace(/[-_]/g, ' ')\<close>, \<open>s.replace(/[-_/]/g, ' ')\<close> and
  \<open>s.replace(/\b\w/g, (l) => l.toUpperCase())\<close>.  \<open>\b\w\<close> matches a word character
  that has no word character before it; the flag of \<open>capitalize\<close> says whether the
  previous character was one.\<close>

definition spaces_for :: "string \<Rightarrow> string \<Rightarrow> string" where
  "spaces_for seps s = map (\<lambda>c. if c \<in> set seps then CHR '' '' else c) s"

fun capitalize :: "bool \<Rightarrow> string \<Rightarrow> string" where
  "capitalize prev [] = []"
| "capitalize prev (c # cs) =
     (if is_word c \<and> \<not> prev then toUpperCase c else c) # capitalize (is_word c) cs"

definition generateViewNameFromPath :: "string \<Rightarrow> string" where
  "generateViewNameFromPath p =
     (let fileName = path_basename p (path_extname p);
          dirName = path_dirname p
      in if dirName = ''.'' then capitalize False (spaces_for ''-_'' fileName)
         else (let formattedDir = capitalize False (spaces_for ''-_/'' dirName);
                   formattedFile = capitalize False (spaces_for ''-_'' fileName)
               in formattedDir @ '' - '' @ formattedFile))"

definition failure :: "UntrackedDocumentInfo \<Rightarrow> string \<Rightarrow> ViewCreationResult" where
  "failure docInfo msg = \<lparr>res_file = filePath docInfo, success = False, viewName = None, viewId = None,
     error = Some msg, issue_count = None, view = None\<rparr>"

text \<open>Lines 159 to 163: the name of the view.\<close>

definition resolve_view_name :: "ViewCreationOptions \<Rightarrow> ExtractedStructure \<Rightarrow> UntrackedDocumentInfo \<Rightarrow> string" where
  "resolve_view_name options extracted docInfo =
     (let viewName = or_else (opt_name options) (name extracted) in
      if viewName = ''Codebase View'' \<or> viewName = [] then generateViewNameFromPath (filePath docInfo)
      else viewName)"

definition build_view :: "'w host \<Rightarrow> 'w \<Rightarrow> ViewCreationOptions \<Rightarrow> ExtractedStructure \<Rightarrow> UntrackedDocumentInfo \<Rightarrow> string \<Rightarrow> CodebaseView" where
  "build_view h w options extracted docInfo relPath =
     (let viewName = resolve_view_name options extracted docInfo;
          descr = or_else (opt_description options)
                    (or_else (Some (description extracted))
                       (''Documentation-based view for '' @ filePath docInfo));
          r = (if rows extracted = 0 then 1 else rows extracted);
          c = (if cols extracted = 0 then 1 else cols extracted)
      in \<lparr>view_id = generateViewIdFromName h viewName, view_version = ''1.0.0'', view_name = viewName,
          view_description = descr, view_rows = r, view_cols = c,
          view_referenceGroups = referenceGroups extracted, view_overviewPath = relPath,
          view_category = or_else (opt_category options) ''docs'', view_displayOrder = 0,
          view_timestamp = now_iso h w,
          view_metadata = \<lparr>generationType = ''user'',
             ui = \<lparr>ui_enabled = True, ui_rows = r, ui_cols = c, showCellLabels = True,
                    cellLabelPosition = ''top''\<rparr>\<rparr>\<rparr>)"

definition created :: "UntrackedDocumentInfo \<Rightarrow> CodebaseView \<Rightarrow> nat option \<Rightarrow> CodebaseView \<Rightarrow> ViewCreationResult" where
  "created docInfo v n stored = \<lparr>res_file = filePath docInfo, success = True, viewName = Some (view_name v),
     viewId = Some (view_id v), error = None, issue_count = n, view = Some stored\<rparr>"

text \<open>
  The \<open>try\<close> block of \<open>createViewFromDocument\<close>, in the world \<open>w\<close> that the constructor
  left.  Every throw inside it ends in one of the \<open>failure\<close> results, as the inner and
  the outer \<open>catch\<close> do.
\<close>

definition create_in_try :: "'w host \<Rightarrow> 'w \<Rightarrow> string \<Rightarrow> UntrackedDocumentInfo \<Rightarrow> ViewCreationOptions \<Rightarrow> ViewCreationResult \<times> 'w" where
  "create_in_try h w repositoryPath docInfo options =
     (case validateRelativePath h w repositoryPath (fullPath docInfo) of
        Inl e \<Rightarrow> (failure docInfo ''File must be within repository'', w)
      | Inr relPath \<Rightarrow>
          if \<not> adapter_exists h w (fullPath docInfo) then (failure docInfo ''File not found'', w)
          else (case readFileSync h w (fullPath docInfo) of
                  Inl e \<Rightarrow> (failure docInfo (''Cannot read file: '' @ error_text e), w)
                | Inr docContent \<Rightarrow>
                    (let extracted = extractStructureFromMarkdown (node h w) docContent (Some repositoryPath);
                         v = build_view h w options extracted docInfo relPath
                     in if dryRun options then (created docInfo v None v, w)
                        else if skipValidation options then
                          (case saveView h w v of
                             (Inl e, w') \<Rightarrow> (failure docInfo (error_text e), w')
                           | (Inr u, w') \<Rightarrow> (created docInfo v None v, w'))
                        else
                          (case saveViewWithValidation h w v of
                             (Inl e, w') \<Rightarrow> (failure docInfo (error_text e), w')
                           | (Inr res, w') \<Rightarrow>
                               (created docInfo v (Some (length (issues res))) (validatedView res), w')))))"

text \<open>The adapter and the palace are constructed before the \<open>try\<close>: a throw there leaves
  the function.\<close>

definition createViewFromDocument :: "'w host \<Rightarrow> 'w \<Rightarrow> string \<Rightarrow> UntrackedDocumentInfo \<Rightarrow> ViewCreationOptions \<Rightarrow> (thrown + ViewCreationResult) \<times> 'w" where
  "createViewFromDocument h w repositoryPath docInfo options =
     (case construct h w repositoryPath of
        (Inl e, w') \<Rightarrow> (Inl e, w')
      | (Inr u, w') \<Rightarrow>
          (case create_in_try h w' repositoryPath docInfo options of (r, w'') \<Rightarrow> (Inr r, w'')))"

text \<open>\<open>createViewsFromDocuments\<close>: the \<open>for\<close> loop, with the results so far.\<close>

fun create_loop :: "'w host \<Rightarrow> string \<Rightarrow> ViewCreationOptions \<Rightarrow> ViewCreationResult list \<Rightarrow> 'w \<Rightarrow> UntrackedDocumentInfo list \<Rightarrow> (thrown + ViewCreationResult list) \<times> 'w" where
  "create_loop h repositoryPath options results w [] = (Inr results, w)"
| "create_loop h repositoryPath options results w (docInfo # documents) =
     (case createViewFromDocument h w repositoryPath docInfo options of
        (Inl e, w') \<Rightarrow> (Inl e, w')
      | (Inr result, w') \<Rightarrow> create_loop h repositoryPath options (results @ [result]) w' documents)"

definition createViewsFromDocuments :: "'w host \<Rightarrow> 'w \<Rightarrow> string \<Rightarrow> UntrackedDocumentInfo list \<Rightarrow> ViewCreationOptions \<Rightarrow> (thrown + ViewCreationResult list) \<times> 'w" where
  "createViewsFromDocuments h w repositoryPath documents options =
     create_loop h repositoryPath options [] w documents"

section \<open>validation.ts\<close>

record ViewValidationResult =
  vr_viewId :: string
  vr_viewName :: string
  vr_success :: bool
  validationResult :: ValidationResult
  vr_error :: "string option"

record ValidationSummary =
  totalViews :: nat
  validViews :: nat
  invalidViews :: nat
  totalIssues :: nat
  errorCount :: nat
  warningCount :: nat
  infoCount :: nat
  results :: "ViewValidationResult list"

text \<open>The body of the loop over the views: \<open>try { ... } catch (error) { ... }\<close>.\<close>

definition validate_one :: "'w host \<Rightarrow> 'w \<Rightarrow> CodebaseView \<Rightarrow> ViewValidationResult" where
  "validate_one h w v =
     (case validateView h w v of
        Inr res \<Rightarrow> \<lparr>vr_viewId = view_id v, vr_viewName = view_name v, vr_success = isValid res,
                     validationResult = res, vr_error = None\<rparr>
      | Inl e \<Rightarrow> \<lparr>vr_viewId = view_id v, vr_viewName = view_name v, vr_success = False,
                    validationResult = \<lparr>isValid = False, issues = [], validatedView = v,
                       summary = \<lparr>errors = 1, warnings = 0, info = 0\<rparr>\<rparr>,
                    vr_error = Some (error_text e)\<rparr>)"

definition summarize :: "ViewValidationResult list \<Rightarrow> ValidationSummary" where
  "summarize rs =
     \<lparr>totalViews = length rs,
      validViews = length (filter vr_success rs),
      invalidViews = length (filter (\<lambda>r. \<not> vr_success r) rs),
      totalIssues = foldl (\<lambda>n r. n + length (issues (validationResult r))) 0 rs,
      errorCount = foldl (\<lambda>n r. n + errors (summary (validationResult r))) 0 rs,
      warningCount = foldl (\<lambda>n r. n + warnings (summary (validationResult r))) 0 rs,
      infoCount = foldl (\<lambda>n r. n + info (summary (validationResult r))) 0 rs,
      results = rs\<rparr>"

text \<open>The palace is constructed and the views are listed outside every \<open>try\<close>; a throw
  there leaves \<open>validateAllViews\<close>.\<close>

definition validateAllViews :: "'w host \<Rightarrow> 'w \<Rightarrow> string \<Rightarrow> (thrown + ValidationSummary) \<times> 'w" where
  "validateAllViews h w repositoryPath =
     (case construct h w repositoryPath of
        (Inl e, w') \<Rightarrow> (Inl e, w')
      | (Inr u, w') \<Rightarrow>
          (case listViews h w' of
             Inl e \<Rightarrow> (Inl e, w')
           | Inr views \<Rightarrow> (Inr (summarize (foldl (\<lambda>rs v. rs @ [validate_one h w' v]) [] views)), w')))"

section \<open>A small world for examples\<close>

text \<open>
  A world with a disk (paths and contents) and a view store, and a host over it that is
  enough to run the program on concrete inputs: paths are joined with a slash, a path is
  inside the repository when it starts with the repository path, validation throws on a view
  without a name, and every save succeeds.
\<close>

record world =
  disk :: "(string \<times> string) list"
  store :: "CodebaseView list"

definition example_node :: "world \<Rightarrow> node_fs" where
  "example_node w = \<lparr>path_join = (\<lambda>a b. a @ ''/'' @ b), existsSync = (\<lambda>p. p \<in> fst ` set (disk w))\<rparr>"

definition example_validation :: "CodebaseView \<Rightarrow> ValidationResult" where
  "example_validation v = \<lparr>isValid = (view_referenceGroups v \<noteq> []), issues = [], validatedView = v,
     summary = \<lparr>errors = (if view_referenceGroups v \<noteq> [] then 0 else 1), warnings = 0, info = 0\<rparr>\<rparr>"

definition example_host :: "world host" where
  "example_host =
     \<lparr>construct = (\<lambda>w repo. (Inr (), w)),
      validateRelativePath = (\<lambda>w repo full.
         if startsWith full (repo @ ''/'') then Inr (drop (length repo + 1) full)
         else Inl (Error ''Path is outside the repository'')),
      adapter_exists = (\<lambda>w p. p \<in> fst ` set (disk w)),
      readFileSync = (\<lambda>w p. case map_of (disk w) p of Some c \<Rightarrow> Inr c
                             | None \<Rightarrow> Inl (Error ''ENOENT: no such file or directory'')),
      node = example_node,
      generateViewIdFromName = map (\<lambda>c. if c = CHR '' '' then CHR ''-'' else toLowerCase c),
      now_iso = (\<lambda>w. ''2025-01-01T00:00:00.000Z''),
      saveView = (\<lambda>w v. (Inr (), w\<lparr>store := store w @ [v]\<rparr>)),
      saveViewWithValidation = (\<lambda>w v. (Inr (example_validation v), w\<lparr>store := store w @ [v]\<rparr>)),
      listViews = (\<lambda>w. Inr (store w)),
      validateView = (\<lambda>w v. if view_name v = [] then Inl (Error ''View has no name'')
                              else Inr (example_validation v))\<rparr>"

definition example_view :: "string \<Rightarrow> (string \<times> CodebaseViewFileCell) list \<Rightarrow> CodebaseView" where
  "example_view n groups =
     \<lparr>view_id = n, view_version = ''1.0.0'', view_name = n, view_description = [], view_rows = 1,
      view_cols = 1, view_referenceGroups = groups, view_overviewPath = ''README.md'',
      view_category = ''docs'', view_displayOrder = 0, view_timestamp = ''2025-01-01T00:00:00.000Z'',
      view_metadata = \<lparr>generationType = ''user'',
         ui = \<lparr>ui_enabled = True, ui_rows = 1, ui_cols = 1, showCellLabels = True,
                cellLabelPosition = ''top''\<rparr>\<rparr>\<rparr>"

definition stored_views :: "CodebaseView list" where
  "stored_views =
     [example_view ''api'' [(''Routes'', \<lparr>coordinates = (0, 0), files = [''src/api.ts''], priority = 0\<rparr>)],
      example_view [] [],
      example_view ''empty'' []]"

text \<open>Documents for the examples.  \<open>text_of\<close> ends every line with a line feed.\<close>

definition text_of :: "string list \<Rightarrow> string" where
  "text_of ls = concat (map (\<lambda>l. l @ [CHR 0x0A]) ls)"

definition scenario_document :: string where
  "scenario_document = text_of [''# My View'', ''Intro paragraph.'', [], ''## Section A'',
     [CHR ''S'', CHR ''e'', CHR ''e'', CHR '' '', CHR 0x60, CHR ''s'', CHR ''r'', CHR ''c'', CHR ''/'',
      CHR ''a'', CHR ''.'', CHR ''t'', CHR ''s'', CHR 0x60, CHR '' '', CHR ''a'', CHR ''n'', CHR ''d'',
      CHR '' '', CHR 0x60, CHR ''s'', CHR ''r'', CHR ''c'', CHR ''/'', CHR ''b'', CHR ''.'', CHR ''t'',
      CHR ''s'', CHR 0x60, CHR ''.''],
     [], ''## Section B'', ''Nothing here.'']"

definition scenario_disk :: world where
  "scenario_disk = \<lparr>disk = [(''/repo/src/a.ts'', ''export {}'')], store = []\<rparr>"

definition seven_files :: world where
  "seven_files = \<lparr>disk = map (\<lambda>p. (p, [])) [''/repo/a.ts'', ''/repo/b.ts'', ''/repo/c.ts'', ''/repo/d.ts'',
     ''/repo/e.ts'', ''/repo/f.ts'', ''/repo/g.ts''], store = []\<rparr>"

definition seven_sections :: string where
  "seven_sections = text_of [''## A'', ''[a](a.ts)'', ''## B'', ''[b](b.ts)'', ''## C'', ''[c](c.ts)'',
     ''## D'', ''[d](d.ts)'', ''## E'', ''[e](e.ts)'', ''## F'', ''[f](f.ts)'', ''## G'', ''[g](g.ts)'']"

definition repeated_label :: string where
  "repeated_label = text_of [''## A'', ''[a](a.ts)'', ''## B'', ''[b](b.ts)'', ''## C'', ''[c](c.ts)'',
     ''## A'', ''[d](d.ts)'', ''## E'', ''[e](e.ts)'', ''## F'', ''[f](f.ts)'', ''## G'', ''[g](g.ts)'']"

definition with_empty_section :: string where
  "with_empty_section = text_of [''## A'', ''[a](a.ts)'', ''[a](a.ts) [b](b.md)'', ''## Empty'', ''Nothing here.'',
     ''## C'', ''[c](c.ts)'']"

definition no_references :: string where
  "no_references = text_of [''# Title'', ''## Empty'', ''Nothing here.'']"

definition placeholder_title :: string where
  "placeholder_title = text_of [''# Codebase View'', ''# Real Title'']"

definition late_paragraph :: string where
  "late_paragraph = text_of [''# Title'', [], ''Later paragraph.'']"

definition two_line_intro :: string where
  "two_line_intro = text_of [''Preface'', ''# Title'', ''  First line. '', ''Second line.'', [], ''Later paragraph.'']"

text \<open>A repository with two documents, documents inside and outside it, and options
  for a dry run with a given name.\<close>

definition guide_world :: world where
  "guide_world = \<lparr>disk = [(''/repo/docs/user-guide.md'', text_of [''# My View'', ''Intro.'']),
                          (''/repo/notes.md'', text_of [''No heading here.''])], store = []\<rparr>"

definition guide_document :: UntrackedDocumentInfo where
  "guide_document = \<lparr>filePath = ''docs/user-guide.md'', relativePath = ''docs/user-guide.md'',
     fullPath = ''/repo/docs/user-guide.md''\<rparr>"



definition named :: "string option \<Rightarrow> ViewCreationOptions" where
  "named n = \<lparr>opt_category = None, skipValidation = False, dryRun = True, opt_name = n,
     opt_description = None\<rparr>"

text \<open>\<open>options.name\<close> as a string: empty when no name is given.\<close>

definition supplied_name :: "ViewCreationOptions \<Rightarrow> string" where
  "supplied_name options = (case opt_name options of Some n \<Rightarrow> n | None \<Rightarrow> [])"






text \<open>Twenty source files, eleven of them referenced, and a reference to a file that is
  not among the source files.\<close>

definition twenty_files :: "string list" where
  "twenty_files = [''src/a.ts'', ''src/b.ts'', ''src/c.ts'', ''src/d.ts'', ''src/e.ts'', ''src/f.ts'',
     ''src/g.ts'', ''src/h.ts'', ''src/i.ts'', ''src/j.ts'', ''src/k.ts'', ''src/l.ts'', ''src/m.ts'',
     ''src/n.ts'', ''src/o.ts'', ''src/p.ts'', ''src/q.ts'', ''src/r.ts'', ''src/s.ts'', ''src/t.ts'']"

definition eleven_referenced :: "string list" where
  "eleven_referenced = [''src/a.ts'', ''src/b.ts'', ''src/c.ts'', ''src/d.ts'', ''src/e.ts'', ''src/f.ts'',
     ''src/g.ts'', ''src/h.ts'', ''src/i.ts'', ''src/j.ts'', ''src/k.ts'', ''docs/guide.md'']"

section \<open>Rounding\<close>

text \<open>The rounding functions on the values that occur in \<open>calculateCoverageMetrics\<close>:
  a quotient of two counts and its product with 100.\<close>

lemma exponent_le:
  assumes "0 < a"
  shows "2 powi (exponent a) \<le> a"
proof (cases "1 \<le> a")
  case True
  then have n: "0 < \<lfloor>a\<rfloor>" by linarith
  from bitlen_bounds [OF n] have "2 ^ nat (bitlen \<lfloor>a\<rfloor> - 1) \<le> \<lfloor>a\<rfloor>" by simp
  then have "rat_of_int (2 ^ nat (bitlen \<lfloor>a\<rfloor> - 1)) \<le> of_int \<lfloor>a\<rfloor>"
    by (simp only: of_int_le_iff)
  then have "(2::rat) ^ nat (bitlen \<lfloor>a\<rfloor> - 1) \<le> a" by (simp add: le_floor_iff)
  moreover have "0 \<le> bitlen \<lfloor>a\<rfloor> - 1"
    using n by (simp add: bitlen_alt_def)
  ultimately show ?thesis
    using True by (simp add: exponent_def power_int_nonneg_exp)
next
  case False
  with assms have "1 < 1 / a" by simp
  then have c: "0 < \<lceil>1 / a\<rceil> - 1" by linarith
  let ?k = "bitlen (\<lceil>1 / a\<rceil> - 1)"
  from bitlen_bounds [OF c] have "\<lceil>1 / a\<rceil> - 1 < 2 ^ nat ?k" by simp
  then have "\<lceil>1 / a\<rceil> \<le> 2 ^ nat ?k" by simp
  then have "rat_of_int \<lceil>1 / a\<rceil> \<le> of_int (2 ^ nat ?k)" by (simp only: of_int_le_iff)
  then have "1 / a \<le> 2 ^ nat ?k"
    using le_of_int_ceiling [of "1 / a"] by (simp only: of_int_power of_int_numeral)
  with assms have "1 / 2 ^ nat ?k \<le> a"
    by (simp add: field_simps)
  moreover have "0 \<le> ?k" by (rule bitlen_nonneg)
  ultimately show ?thesis
    using False by (simp add: exponent_def power_int_minus power_int_nonneg_exp inverse_eq_divide)
qed

lemma exponent_less:
  assumes "0 < a" and "a < 2 powi k"
  shows "exponent a < k"
proof (rule ccontr)
  assume "\<not> exponent a < k"
  then have "(2::rat) powi k \<le> 2 powi (exponent a)"
    by (intro power_int_increasing) simp_all
  with exponent_le [OF assms(1)] assms(2) show False by simp
qed

lemma round_half_even_cases:
  fixes x :: rat
  obtains "round_half_even x = \<lfloor>x\<rfloor>" and "x - of_int \<lfloor>x\<rfloor> \<le> 1 / 2"
  | "round_half_even x = \<lfloor>x\<rfloor> + 1" and "1 / 2 \<le> x - of_int \<lfloor>x\<rfloor>"
  unfolding round_half_even_def Let_def
  by (cases "x - of_int \<lfloor>x\<rfloor> < 1 / 2"; cases "1 / 2 < x - of_int \<lfloor>x\<rfloor>"; cases "even \<lfloor>x\<rfloor>") simp_all

lemma round_half_even_error: "\<bar>of_int (round_half_even x) - x\<bar> \<le> 1 / 2"
proof (cases x rule: round_half_even_cases)
  case 1
  then show ?thesis by simp
next
  case 2
  moreover have "x < of_int \<lfloor>x\<rfloor> + 1"
    using floor_correct [of x] by simp
  ultimately show ?thesis by (simp add: abs_if)
qed

lemma round_half_even_le:
  assumes "x \<le> of_int k"
  shows "round_half_even x \<le> k"
proof (cases x rule: round_half_even_cases)
  case 1
  from assms have "\<lfloor>x\<rfloor> \<le> k" by (simp add: floor_le_iff)
  with 1 show ?thesis by simp
next
  case 2
  have "x \<noteq> of_int k"
  proof
    assume "x = of_int k"
    with 2(2) show False by simp
  qed
  with assms have "x < of_int k" by simp
  then have "\<lfloor>x\<rfloor> < k" by (simp add: floor_less_iff)
  with 2 show ?thesis by simp
qed

lemma round_half_even_nonneg:
  assumes "0 \<le> x"
  shows "0 \<le> round_half_even x"
proof -
  from assms have "0 \<le> \<lfloor>x\<rfloor>" by simp
  then show ?thesis
    by (cases x rule: round_half_even_cases) simp_all
qed

lemma round64_bounded:
  assumes "0 < a" and "a \<le> of_int B" and "B \<le> 2 ^ 52"
  shows "\<exists>r. round64 a = Finite r \<and> 0 \<le> r \<and> r \<le> of_int B
             \<and> \<bar>r - a\<bar> \<le> 2 powi (max (exponent a) (- 1022) - 53)"
proof -
  define e where "e = max (exponent a) (- 1022)"
  define k where "k = nat (52 - e)"
  define m where "m = round_half_even (a * 2 ^ k)"
  from assms(3) have "rat_of_int B \<le> of_int (2 ^ 52)" by (simp only: of_int_le_iff)
  with assms(2) have "a < 2 powi 53" by simp
  with assms(1) have "exponent a < 53" by (rule exponent_less)
  then have e: "e \<le> 52" by (simp add: e_def)
  then have "e - 52 = - int k" "e - 53 = - int (Suc k)" by (simp_all add: k_def)
  then have ulp: "(2::rat) powi (e - 52) = 1 / 2 ^ k" and half: "(2::rat) powi (e - 53) = 1 / 2 / 2 ^ k"
    by (simp_all only: power_int_minus power_int_of_nat inverse_eq_divide power_Suc)
  have "a * 2 ^ k \<le> of_int B * 2 ^ k"
    using assms(2) by simp
  then have "a * 2 ^ k \<le> of_int (B * 2 ^ k)" by simp
  then have "m \<le> B * 2 ^ k" unfolding m_def by (rule round_half_even_le)
  then have "rat_of_int m \<le> of_int (B * 2 ^ k)" by (simp only: of_int_le_iff)
  then have upper: "of_int m / 2 ^ k \<le> rat_of_int B" by (simp add: field_simps)
  have "0 \<le> a * 2 ^ k" using assms(1) by simp
  then have "0 \<le> m" unfolding m_def by (rule round_half_even_nonneg)
  then have lower: "0 \<le> rat_of_int m / 2 ^ k" by simp
  have "\<bar>of_int m - a * 2 ^ k\<bar> \<le> 1 / 2" unfolding m_def by (rule round_half_even_error)
  then have "\<bar>of_int m - a * 2 ^ k\<bar> / 2 ^ k \<le> 1 / 2 / 2 ^ k"
    by (rule divide_right_mono) simp
  moreover have "\<bar>of_int m - a * 2 ^ k\<bar> / 2 ^ k = \<bar>of_int m / 2 ^ k - a\<bar>"
  proof -
    have "\<bar>of_int m - a * 2 ^ k\<bar> / 2 ^ k = \<bar>(of_int m - a * 2 ^ k) / 2 ^ k\<bar>" by simp
    also have "(of_int m - a * 2 ^ k) / 2 ^ k = of_int m / 2 ^ k - a" by (simp add: field_simps)
    finally show ?thesis .
  qed
  ultimately have err: "\<bar>of_int m / 2 ^ k - a\<bar> \<le> 2 powi (e - 53)" by (simp only: half)
  have "round64 a = Finite (of_int m / 2 ^ k)"
    using assms(1) e by (simp add: round64_def Let_def e_def [symmetric] ulp m_def [symmetric])
  with upper lower err show ?thesis by (simp add: e_def)
qed

text \<open>A count below \<open>2 ^ 53\<close> is a number: rounding leaves it as it is.\<close>

lemma round_half_even_of_int [simp]: "round_half_even (of_int k) = k"
  by (simp add: round_half_even_def)

lemma count_is_number:
  assumes "n < 2 ^ 53"
  shows "round64 (of_nat n) = Finite (of_nat n)"
proof (cases "n = 0")
  case True
  then show ?thesis by (simp add: round64_def)
next
  case False
  define e where "e = exponent (of_nat n)"
  define k where "k = nat (52 - e)"
  from False have pos: "0 < rat_of_nat n" and one: "1 \<le> rat_of_nat n" by simp_all
  from assms have "rat_of_nat n < of_nat (2 ^ 53)" by (simp only: of_nat_less_iff)
  then have "rat_of_nat n < 2 powi 53" by simp
  with pos have "e < 53" unfolding e_def by (rule exponent_less)
  moreover have "0 \<le> e"
    using one by (simp add: e_def exponent_def bitlen_alt_def)
  ultimately have m: "max e (- 1022) = e" and "e - 52 = - int k" by (simp_all add: k_def)
  then have ulp: "(2::rat) powi (e - 52) = 1 / 2 ^ k"
    by (simp only: power_int_minus power_int_of_nat inverse_eq_divide)
  have "rat_of_nat n * 2 ^ k = of_int (int n * 2 ^ k)" by simp
  then have r: "round_half_even (rat_of_nat n * 2 ^ k) = int n * 2 ^ k"
    by (simp only: round_half_even_of_int)
  show ?thesis
    using False \<open>e < 53\<close>
    by (simp add: round64_def Let_def e_def [symmetric] m ulp r)
qed

lemma round64_exact: "round64 1 = Finite 1" "round64 100 = Finite 100"
  by code_simp+

lemma percentage_bounds:
  fixes c t :: nat
  assumes "c \<le> t" and "0 < t"
  shows "\<exists>r. number_times (number_divide (Finite (of_nat c)) (Finite (of_nat t))) (Finite 100) = Finite r
             \<and> 0 \<le> r \<and> r \<le> 100 \<and> \<bar>r - of_nat c / of_nat t * 100\<bar> < 1 / 2 ^ 46"
proof -
  define q :: rat where "q = of_nat c / of_nat t"
  have q: "0 \<le> q" "q \<le> 1"
    using assms by (simp_all add: q_def)
  have quotient: "number_divide (Finite (of_nat c)) (Finite (of_nat t)) = (if c = 0 then Finite 0 else round64 q)"
    using assms(2) by (simp add: number_divide_def q_def)
  consider "c = 0" | "c = t" | "0 < c" "c < t" using assms by linarith
  then show ?thesis
  proof cases
    case 1
    with assms(2) show ?thesis by (simp add: number_divide_def number_times_def)
  next
    case 2
    with assms(2) have "q = 1" by (simp add: q_def)
    with 2 assms(2) quotient show ?thesis
      by (simp add: number_times_def round64_exact)
  next
    case 3
    then have pos: "0 < q" and less: "q < 1" by (simp_all add: q_def)
    from round64_bounded [OF pos, of 1] q obtain r1
      where r1: "round64 q = Finite r1" "0 \<le> r1" "r1 \<le> 1"
        and e1: "\<bar>r1 - q\<bar> \<le> 2 powi (max (exponent q) (- 1022) - 53)"
      by auto
    from less have "exponent q < 0" using exponent_less [OF pos, of 0] by simp
    then have "max (exponent q) (- 1022) - 53 \<le> - 54" by simp
    then have "(2::rat) powi (max (exponent q) (- 1022) - 53) \<le> 2 powi (- 54)"
      by (rule power_int_increasing) simp
    with e1 have d1: "\<bar>r1 - q\<bar> \<le> 1 / 2 ^ 54"
      by (simp add: power_int_minus inverse_eq_divide)
    show ?thesis
    proof (cases "r1 = 0")
      case True
      with d1 have "q * 100 < 1 / 2 ^ 46" using q(1) by simp
      with True 3 quotient r1 q(1) show ?thesis
        by (simp add: number_times_def q_def [symmetric])
    next
      case False
      with r1 have p2: "0 < r1 * 100" and u2: "r1 * 100 \<le> of_int 100" by simp_all
      from round64_bounded [OF p2 u2] obtain r2
        where r2: "round64 (r1 * 100) = Finite r2" "0 \<le> r2" "r2 \<le> 100"
          and e2: "\<bar>r2 - r1 * 100\<bar> \<le> 2 powi (max (exponent (r1 * 100)) (- 1022) - 53)"
        by auto
      from u2 have "r1 * 100 < 2 powi 7" by simp
      with p2 have "exponent (r1 * 100) < 7" by (rule exponent_less)
      then have "max (exponent (r1 * 100)) (- 1022) - 53 \<le> - 47" by simp
      then have "(2::rat) powi (max (exponent (r1 * 100)) (- 1022) - 53) \<le> 2 powi (- 47)"
        by (rule power_int_increasing) simp
      with e2 have d2: "\<bar>r2 - r1 * 100\<bar> \<le> 1 / 2 ^ 47"
        by (simp add: power_int_minus inverse_eq_divide)
      have "\<bar>r2 - q * 100\<bar> \<le> \<bar>r2 - r1 * 100\<bar> + \<bar>r1 - q\<bar> * 100"
        by (simp add: abs_if split: if_splits)
      with d1 d2 have "\<bar>r2 - q * 100\<bar> \<le> 1 / 2 ^ 47 + 1 / 2 ^ 54 * 100" by linarith
      then have "\<bar>r2 - q * 100\<bar> < 1 / 2 ^ 46" by simp
      with False 3 quotient r1 r2 show ?thesis
        by (simp add: number_times_def q_def [symmetric])
    qed
  qed
qed

lemma eleven_of_twenty:
  "number_times (number_divide (Finite 11) (Finite 20)) (Finite 100) = Finite (55 + 1 / 2 ^ 47)"
  by code_simp

lemma tenth: "round64 (1 / 10) = Finite (3602879701896397 / 36028797018963968)"
  by code_simp

lemma eleven_covered:
  "length twenty_files = 20"
  "length (filter (\<lambda>f. f \<in> set eleven_referenced) twenty_files) = 11"
  by (simp_all add: twenty_files_def eleven_referenced_def)

section \<open>Coverage\<close>

text \<open>
  C8.  For every pair of source-file and referenced-file sets, \<open>calculateCoverageMetrics\<close>
  returns \<open>totalFiles\<close> the number of source files, \<open>coveredFiles\<close> the number of them that
  are referenced, and \<open>coveragePercentage\<close> the number \<open>coveredFiles / totalFiles * 100\<close>
  of JavaScript (the quotient rounded to a double, and its product with 100 rounded again)
  when \<open>totalFiles > 0\<close>, and the number 100 when \<open>totalFiles = 0\<close>.  In every case the
  percentage is a finite number, never \<open>NaN\<close> and never an infinity, it lies between 0 and
  100, and it differs from the exact percentage by less than \<open>2 ^ - 46\<close>.  An empty source
  universe has \<open>totalFiles = 0\<close> and percentage 100.
\<close>

theorem calculateCoverageMetrics_percentage:
  "totalFiles (calculateCoverageMetrics sourceFiles referencedFiles) = length sourceFiles
   \<and> coveredFiles (calculateCoverageMetrics sourceFiles referencedFiles)
       = length (filter (\<lambda>f. f \<in> set referencedFiles) sourceFiles)
   \<and> coveragePercentage (calculateCoverageMetrics sourceFiles referencedFiles)
       = (if totalFiles (calculateCoverageMetrics sourceFiles referencedFiles) > 0
          then number_times
                 (number_divide
                    (Finite (of_nat (coveredFiles (calculateCoverageMetrics sourceFiles referencedFiles))))
                    (Finite (of_nat (totalFiles (calculateCoverageMetrics sourceFiles referencedFiles)))))
                 (Finite 100)
          else Finite 100)
   \<and> (\<exists>r. coveragePercentage (calculateCoverageMetrics sourceFiles referencedFiles) = Finite r
          \<and> 0 \<le> r \<and> r \<le> 100
          \<and> \<bar>r - (if totalFiles (calculateCoverageMetrics sourceFiles referencedFiles) > 0
                   then of_nat (coveredFiles (calculateCoverageMetrics sourceFiles referencedFiles))
                        / of_nat (totalFiles (calculateCoverageMetrics sourceFiles referencedFiles)) * 100
                   else 100)\<bar> < 1 / 2 ^ 46)
   \<and> (sourceFiles = [] \<longrightarrow>
        totalFiles (calculateCoverageMetrics sourceFiles referencedFiles) = 0
        \<and> coveragePercentage (calculateCoverageMetrics sourceFiles referencedFiles) = Finite 100)"
proof -
  let ?m = "calculateCoverageMetrics sourceFiles referencedFiles"
  have t: "totalFiles ?m = length sourceFiles"
    by (simp add: calculateCoverageMetrics_def Let_def)
  have c: "coveredFiles ?m = length (filter (\<lambda>f. f \<in> set referencedFiles) sourceFiles)"
    by (simp add: calculateCoverageMetrics_def Let_def)
  have p: "coveragePercentage ?m
       = (if totalFiles ?m > 0
          then number_times (number_divide (Finite (of_nat (coveredFiles ?m))) (Finite (of_nat (totalFiles ?m))))
                 (Finite 100)
          else Finite 100)"
    by (simp add: calculateCoverageMetrics_def Let_def)
  have le: "coveredFiles ?m \<le> totalFiles ?m"
    by (simp add: t c)
  have finite: "\<exists>r. coveragePercentage ?m = Finite r \<and> 0 \<le> r \<and> r \<le> 100
          \<and> \<bar>r - (if totalFiles ?m > 0 then of_nat (coveredFiles ?m) / of_nat (totalFiles ?m) * 100
                   else 100)\<bar> < 1 / 2 ^ 46"
  proof (cases "0 < totalFiles ?m")
    case True
    from percentage_bounds [OF le True] obtain r
      where "number_times (number_divide (Finite (of_nat (coveredFiles ?m))) (Finite (of_nat (totalFiles ?m))))
               (Finite 100) = Finite r"
        and "0 \<le> r" and "r \<le> 100"
        and "\<bar>r - of_nat (coveredFiles ?m) / of_nat (totalFiles ?m) * 100\<bar> < 1 / 2 ^ 46"
      by blast
    with True show ?thesis
      by (simp only: p if_True) blast
  next
    case False
    then have "coveragePercentage ?m = Finite 100"
      by (simp only: p if_False)
    with False show ?thesis by simp
  qed
  have empty: "sourceFiles = [] \<longrightarrow> totalFiles ?m = 0 \<and> coveragePercentage ?m = Finite 100"
    by (simp add: calculateCoverageMetrics_def Let_def)
  from t c p finite empty show ?thesis
    by (intro conjI)
qed

theorem calculateCoverageMetrics_percentage_witness:
  "totalFiles (calculateCoverageMetrics [] [''src/a.ts'']) = 0
   \<and> coveragePercentage (calculateCoverageMetrics [] [''src/a.ts'']) = Finite 100
   \<and> totalFiles (calculateCoverageMetrics twenty_files eleven_referenced) = 20
   \<and> coveredFiles (calculateCoverageMetrics twenty_files eleven_referenced) = 11
   \<and> coveragePercentage (calculateCoverageMetrics twenty_files eleven_referenced) = Finite (55 + 1 / 2 ^ 47)
   \<and> \<bar>(55 + 1 / 2 ^ 47) - 11 / 20 * 100\<bar> < (1 / 2 ^ 46 :: rat)"
proof -
  from calculateCoverageMetrics_percentage [of "[]" "[''src/a.ts'']"]
  have "totalFiles (calculateCoverageMetrics [] [''src/a.ts'']) = 0
        \<and> coveragePercentage (calculateCoverageMetrics [] [''src/a.ts'']) = Finite 100"
    by simp
  moreover from calculateCoverageMetrics_percentage [of twenty_files eleven_referenced]
  have "totalFiles (calculateCoverageMetrics twenty_files eleven_referenced) = 20
        \<and> coveredFiles (calculateCoverageMetrics twenty_files eleven_referenced) = 11
        \<and> coveragePercentage (calculateCoverageMetrics twenty_files eleven_referenced)
            = Finite (55 + 1 / 2 ^ 47)"
    by (simp add: eleven_covered eleven_of_twenty)
  moreover have "\<bar>(55 + 1 / 2 ^ 47) - 11 / 20 * 100\<bar> < (1 / 2 ^ 46 :: rat)"
    by simp
  ultimately show ?thesis by simp
qed

section \<open>Validation of all views\<close>

lemma validate_loop:
  "foldl (\<lambda>rs v. rs @ [validate_one h w v]) acc views = acc @ map (validate_one h w) views"
  by (induction views arbitrary: acc) simp_all

lemma filter_partition_length:
  "length (filter P xs) + length (filter (\<lambda>x. \<not> P x) xs) = length xs"
  by (induction xs) simp_all

text \<open>
  C10.  When the palace is constructed and the views are listed, \<open>validateAllViews\<close>
  returns a summary with \<open>totalViews = validViews + invalidViews = length results\<close>, one
  result per view, \<open>validViews\<close> the number of results with \<open>success\<close> and \<open>invalidViews\<close>
  the number without; a throw of \<open>validateView\<close> on a view does not leave the function but
  becomes that view's result, with \<open>success = false\<close>, the error text, and a validation
  summary that counts exactly one error.
\<close>

theorem validateAllViews_summary:
  assumes "construct h w repositoryPath = (Inr u, w')" and "listViews h w' = Inr views"
  shows "\<exists>s. validateAllViews h w repositoryPath = (Inr s, w')
    \<and> totalViews s = length (results s)
    \<and> length (results s) = length views
    \<and> totalViews s = validViews s + invalidViews s
    \<and> validViews s = length (filter vr_success (results s))
    \<and> invalidViews s = length (filter (\<lambda>r. \<not> vr_success r) (results s))
    \<and> (\<forall>i < length views. \<forall>e. validateView h w' (views ! i) = Inl e \<longrightarrow>
          vr_viewId (results s ! i) = view_id (views ! i)
          \<and> vr_viewName (results s ! i) = view_name (views ! i)
          \<and> vr_success (results s ! i) = False
          \<and> vr_error (results s ! i) = Some (error_text e)
          \<and> validationResult (results s ! i)
              = \<lparr>isValid = False, issues = [], validatedView = views ! i,
                  summary = \<lparr>errors = 1, warnings = 0, info = 0\<rparr>\<rparr>)"
proof -
  let ?rs = "map (validate_one h w') views"
  have run: "validateAllViews h w repositoryPath = (Inr (summarize ?rs), w')"
    using assms by (simp add: validateAllViews_def validate_loop)
  have thrown: "\<forall>i < length views. \<forall>e. validateView h w' (views ! i) = Inl e \<longrightarrow>
          vr_viewId (?rs ! i) = view_id (views ! i)
          \<and> vr_viewName (?rs ! i) = view_name (views ! i)
          \<and> vr_success (?rs ! i) = False
          \<and> vr_error (?rs ! i) = Some (error_text e)
          \<and> validationResult (?rs ! i)
              = \<lparr>isValid = False, issues = [], validatedView = views ! i,
                  summary = \<lparr>errors = 1, warnings = 0, info = 0\<rparr>\<rparr>"
    by (simp add: validate_one_def)
  have count: "length ?rs = length (filter vr_success ?rs) + length (filter (\<lambda>r. \<not> vr_success r) ?rs)"
    using filter_partition_length [of vr_success ?rs] by simp
  show ?thesis
    using run thrown count by (intro exI [of _ "summarize ?rs"]) (simp add: summarize_def)
qed

theorem validateAllViews_summary_witness:
  "construct example_host \<lparr>disk = [], store = stored_views\<rparr> ''/repo''
     = (Inr (), \<lparr>disk = [], store = stored_views\<rparr>)
   \<and> listViews example_host \<lparr>disk = [], store = stored_views\<rparr> = Inr stored_views
   \<and> validateView example_host \<lparr>disk = [], store = stored_views\<rparr> (stored_views ! 1)
       = Inl (Error ''View has no name'')
   \<and> (\<exists>s. validateAllViews example_host \<lparr>disk = [], store = stored_views\<rparr> ''/repo''
             = (Inr s, \<lparr>disk = [], store = stored_views\<rparr>)
          \<and> totalViews s = 3
          \<and> totalViews s = validViews s + invalidViews s
          \<and> vr_success (results s ! 1) = False
          \<and> vr_error (results s ! 1) = Some ''View has no name''
          \<and> summary (validationResult (results s ! 1)) = \<lparr>errors = 1, warnings = 0, info = 0\<rparr>)"
proof -
  let ?w = "\<lparr>disk = [], store = stored_views\<rparr>"
  have c: "construct example_host ?w ''/repo'' = (Inr (), ?w)"
    by (simp add: example_host_def)
  have l: "listViews example_host ?w = Inr stored_views"
    by (simp add: example_host_def)
  have n: "length stored_views = 3" "1 < length stored_views"
    by (simp_all add: stored_views_def)
  have t: "validateView example_host ?w (stored_views ! 1) = Inl (Error ''View has no name'')"
    by (simp add: example_host_def stored_views_def example_view_def)
  from validateAllViews_summary [OF c l] obtain s where
    s: "validateAllViews example_host ?w ''/repo'' = (Inr s, ?w)"
       "totalViews s = length (results s)" "length (results s) = length stored_views"
       "totalViews s = validViews s + invalidViews s"
       "\<forall>i < length stored_views. \<forall>e. validateView example_host ?w (stored_views ! i) = Inl e \<longrightarrow>
          vr_viewId (results s ! i) = view_id (stored_views ! i)
          \<and> vr_viewName (results s ! i) = view_name (stored_views ! i)
          \<and> vr_success (results s ! i) = False
          \<and> vr_error (results s ! i) = Some (error_text e)
          \<and> validationResult (results s ! i)
              = \<lparr>isValid = False, issues = [], validatedView = stored_views ! i,
                  summary = \<lparr>errors = 1, warnings = 0, info = 0\<rparr>\<rparr>"
    by blast
  from s(5) n(2) t have
    "vr_success (results s ! 1) = False \<and> vr_error (results s ! 1) = Some ''View has no name''
     \<and> summary (validationResult (results s ! 1)) = \<lparr>errors = 1, warnings = 0, info = 0\<rparr>"
    by fastforce
  with s(1-4) n(1) c l t show ?thesis by auto
qed

section \<open>Every match of a file pattern consumes input\<close>

lemma rmatch_width:
  "(s', caps') \<in> set (rmatch ic n r (s, caps)) \<Longrightarrow> length s' + min_width r \<le> length s"
proof (induction r arbitrary: s caps s' caps')
  case Eps
  then show ?case by simp
next
  case (Atom a)
  then show ?case by (auto split: list.splits if_splits)
next
  case (Plus a)
  have "length (takeWhile (atom_matches ic a) s) \<le> length s"
    by (rule length_takeWhile_le)
  with Plus show ?case by auto
next
  case (Star a)
  then show ?case by auto
next
  case (Seq r1 r2)
  from Seq.prems obtain m cm where m: "(m, cm) \<in> set (rmatch ic n r1 (s, caps))"
    and r: "(s', caps') \<in> set (rmatch ic n r2 (m, cm))"
    by auto
  from Seq.IH(1) [OF m] Seq.IH(2) [OF r] show ?case by simp
next
  case (Alt r1 r2)
  then show ?case by fastforce
next
  case (Group g r)
  then show ?case by auto
next
  case Bol
  then show ?case by (auto split: if_splits)
next
  case Eol
  then show ?case by (auto split: if_splits)
qed

lemma search_sound:
  "search ic n r s = Some (start, s', caps) \<Longrightarrow>
   length start \<le> length s \<and> (s', caps) \<in> set (rmatch ic n r (start, []))"
proof (induction ic n r s rule: search.induct)
  case (1 ic n r s)
  show ?case
  proof (cases "rmatch ic n r (s, [])")
    case Nil
    with "1.prems" obtain x t where s: "s = x # t" and rest: "search ic n r t = Some (start, s', caps)"
      by (subst (asm) search.simps) (auto split: list.splits)
    from "1.IH" [OF Nil s rest] show ?thesis by (simp add: s)
  next
    case (Cons m ms)
    with "1.prems" show ?thesis
      by (subst (asm) search.simps) (auto split: prod.splits)
  qed
qed

lemma filePatterns_width: "list_all (\<lambda>r. 0 < min_width r) filePatterns"
  by code_simp

lemma filePatterns_consume:
  assumes "r \<in> set filePatterns" and "search ic n r s = Some (start, s', caps)"
  shows "length s' < length s"
proof -
  from assms(1) filePatterns_width have "0 < min_width r"
    by (simp add: list_all_iff)
  moreover from search_sound [OF assms(2)] rmatch_width [of s' caps ic n r start "[]"]
  have "length s' + min_width r \<le> length s" by simp
  ultimately show ?thesis by simp
qed

section \<open>The parser loop and the structure of the document\<close>

lemma add_match_accepted:
  "add_match fs repo fls caps = foldl add_unique fls (accepted fs repo caps)"
  by (simp add: add_match_def accepted_def add_unique_def Let_def split: option.splits)

lemma foldl_add_match:
  "foldl (add_match fs repo) fls ms = foldl add_unique fls (concat (map (accepted fs repo) ms))"
  by (induction ms arbitrary: fls) (simp_all add: add_match_accepted)

lemma foldl_patterns:
  "foldl (\<lambda>acc pattern. foldl (add_match fs repo) acc (exec_all True n pattern line)) fls ps
   = foldl add_unique fls (concat (map (\<lambda>pattern. concat (map (accepted fs repo) (exec_all True n pattern line))) ps))"
  by (induction ps arbitrary: fls) (simp_all add: foldl_add_match)

lemma scan_line_candidates:
  "scan_line fs repo line fls = foldl add_unique fls (candidates fs repo line)"
  by (simp add: scan_line_def candidates_def foldl_patterns)

lemma set_first_seen [simp]: "set (first_seen xs) = set xs"
  by (induction xs rule: first_seen.induct) auto

lemma distinct_first_seen [simp]: "distinct (first_seen xs)"
  by (induction xs rule: first_seen.induct) auto

lemma first_seen_snoc:
  "first_seen (xs @ [x]) = (if x \<in> set xs then first_seen xs else first_seen xs @ [x])"
  by (induction xs rule: first_seen.induct) auto

lemma foldl_add_unique_first_seen:
  "foldl add_unique (first_seen ys) xs = first_seen (ys @ xs)"
proof (induction xs arbitrary: ys)
  case Nil
  then show ?case by simp
next
  case (Cons x xs)
  have "add_unique (first_seen ys) x = first_seen (ys @ [x])"
    by (simp add: add_unique_def first_seen_snoc)
  then show ?case using Cons [of "ys @ [x]"] by simp
qed

lemma scan_line_section_files:
  "scan_line fs repo line (section_files fs repo body) = section_files fs repo (body @ [line])"
  by (simp add: scan_line_candidates section_files_def foldl_add_unique_first_seen)

lemma section_files_Nil [simp]: "section_files fs repo [] = []"
  by (simp add: section_files_def)

lemma describe_line_fields [simp]:
  "currentSection (describe_line l st) = currentSection st"
  "currentFiles (describe_line l st) = currentFiles st"
  "sectionIndex (describe_line l st) = sectionIndex st"
  "maxRow (describe_line l st) = maxRow st"
  "maxCol (describe_line l st) = maxCol st"
  "p_referenceGroups (describe_line l st) = p_referenceGroups st"
  "p_name (describe_line l st) = p_name st"
  by (simp_all add: describe_line_def)

lemma emitted_from_Nil:
  "emitted_from fs repo nm (label, body) [] =
     (if label \<noteq> [] \<and> section_files fs repo body \<noteq> [] then [(label, section_files fs repo body)] else [])"
  by (simp add: emitted_from_def)

lemma emitted_from_title:
  "is_title_line l \<Longrightarrow> emitted_from fs repo placeholder sec (l # ls) = emitted_from fs repo (title_text l) sec ls"
  by (simp add: emitted_from_def)

lemma emitted_from_heading:
  "\<not> (is_title_line l \<and> nm = placeholder) \<Longrightarrow> is_section_heading l \<Longrightarrow>
   emitted_from fs repo nm (label, body) (l # ls) =
     (if label \<noteq> [] \<and> section_files fs repo body \<noteq> [] then [(label, section_files fs repo body)] else [])
     @ emitted_from fs repo nm (section_label l, []) ls"
  by (auto simp add: emitted_from_def)

lemma emitted_from_body:
  "\<not> (is_title_line l \<and> nm = placeholder) \<Longrightarrow> \<not> is_section_heading l \<Longrightarrow>
   emitted_from fs repo nm (label, body) (l # ls) = emitted_from fs repo nm (label, body @ [l]) ls"
  by (auto simp add: emitted_from_def)

lemma parse_loop_sections:
  "currentFiles st = section_files fs repo body \<Longrightarrow>
   p_referenceGroups (save_section (foldl (parse_line fs repo) st lines))
     = place_from (sectionIndex st) (p_referenceGroups st)
         (emitted_from fs repo (p_name st) (currentSection st, body) (map trim lines))
   \<and> maxRow (save_section (foldl (parse_line fs repo) st lines))
     = foldl max (maxRow st) (map (\<lambda>j. j div 3)
         [sectionIndex st ..< sectionIndex st
            + length (emitted_from fs repo (p_name st) (currentSection st, body) (map trim lines))])
   \<and> maxCol (save_section (foldl (parse_line fs repo) st lines))
     = foldl max (maxCol st) (map (\<lambda>j. j mod 3)
         [sectionIndex st ..< sectionIndex st
            + length (emitted_from fs repo (p_name st) (currentSection st, body) (map trim lines))])"
proof (induction lines arbitrary: st body)
  case Nil
  then show ?case
    by (simp add: emitted_from_Nil save_section_def Let_def grid_cell_def)
next
  case (Cons raw lines)
  define l where "l = trim raw"
  define st' where "st' = parse_line fs repo st raw"
  have fold: "foldl (parse_line fs repo) st (raw # lines) = foldl (parse_line fs repo) st' lines"
    by (simp add: st'_def)
  have lines: "map trim (raw # lines) = l # map trim lines"
    by (simp add: l_def)
  show ?case
  proof (cases "is_title_line l \<and> p_name st = placeholder")
    case True
    have fields:
      "sectionIndex st' = sectionIndex st" "p_name st' = title_text l"
      "currentSection st' = currentSection st" "currentFiles st' = section_files fs repo body"
      "p_referenceGroups st' = p_referenceGroups st"
      "maxRow st' = maxRow st" "maxCol st' = maxCol st"
      using True Cons.prems
      by (simp_all add: st'_def l_def parse_line_def is_title_line_def title_text_def)
    have em: "emitted_from fs repo (p_name st) (currentSection st, body) (l # map trim lines)
              = emitted_from fs repo (title_text l) (currentSection st, body) (map trim lines)"
      using True by (simp add: emitted_from_title)
    show ?thesis
      unfolding fold lines em using Cons.IH [of st' body] fields by simp
  next
    case no_title: False
    show ?thesis
    proof (cases "is_section_heading l")
      case True
      show ?thesis
      proof (cases "currentSection st \<noteq> [] \<and> section_files fs repo body \<noteq> []")
        case emit: True
        have fields:
          "sectionIndex st' = Suc (sectionIndex st)" "p_name st' = p_name st"
          "currentSection st' = section_label l" "currentFiles st' = section_files fs repo []"
          "p_referenceGroups st' = js_set (p_referenceGroups st) (currentSection st)
              (grid_cell (sectionIndex st) (section_files fs repo body))"
          "maxRow st' = max (maxRow st) (sectionIndex st div 3)"
          "maxCol st' = max (maxCol st) (sectionIndex st mod 3)"
          using no_title True emit Cons.prems
          by (auto simp add: st'_def l_def parse_line_def is_title_line_def is_section_heading_def
                section_label_def save_section_def Let_def grid_cell_def)
        have em: "emitted_from fs repo (p_name st) (currentSection st, body) (l # map trim lines)
                  = (currentSection st, section_files fs repo body)
                    # emitted_from fs repo (p_name st) (section_label l, []) (map trim lines)"
          using no_title True emit by (simp add: emitted_from_heading)
        show ?thesis
          unfolding fold lines em using Cons.IH [of st' "[]"] fields
          by (simp add: upt_conv_Cons del: upt_Suc)
      next
        case skip: False
        have fields:
          "sectionIndex st' = sectionIndex st" "p_name st' = p_name st"
          "currentSection st' = section_label l" "currentFiles st' = section_files fs repo []"
          "p_referenceGroups st' = p_referenceGroups st"
          "maxRow st' = maxRow st" "maxCol st' = maxCol st"
          using no_title True skip Cons.prems
          by (auto simp add: st'_def l_def parse_line_def is_title_line_def is_section_heading_def
                section_label_def Let_def)
        have em: "emitted_from fs repo (p_name st) (currentSection st, body) (l # map trim lines)
                  = emitted_from fs repo (p_name st) (section_label l, []) (map trim lines)"
          using no_title True skip by (simp add: emitted_from_heading)
        show ?thesis
          unfolding fold lines em using Cons.IH [of st' "[]"] fields by simp
      qed
    next
      case False
      have fields:
        "sectionIndex st' = sectionIndex st" "p_name st' = p_name st"
        "currentSection st' = currentSection st"
        "currentFiles st' = section_files fs repo (body @ [l])"
        "p_referenceGroups st' = p_referenceGroups st"
        "maxRow st' = maxRow st" "maxCol st' = maxCol st"
        using no_title False Cons.prems
        by (auto simp add: st'_def l_def parse_line_def is_title_line_def is_section_heading_def
              Let_def scan_line_section_files)
      have em: "emitted_from fs repo (p_name st) (currentSection st, body) (l # map trim lines)
                = emitted_from fs repo (p_name st) (currentSection st, body @ [l]) (map trim lines)"
        using no_title False by (simp add: emitted_from_body)
      show ?thesis
        unfolding fold lines em using Cons.IH [of st' "body @ [l]"] fields by simp
    qed
  qed
qed

lemma initial_emitted:
  "emitted_from fs repo placeholder ([], []) (map trim (split_lines content)) = emitted_sections fs repo content"
  by (simp add: emitted_from_def emitted_sections_def document_sections_def document_bodies_def
        document_lines_def)

lemma foldl_max_div3: "foldl max 0 (map (\<lambda>j. j div 3) [0 ..< n]) = (n - 1) div 3"
proof (induction n)
  case 0
  then show ?case by simp
next
  case (Suc n)
  have "max ((n - 1) div 3) (n div 3) = n div 3"
    by (simp add: max_def div_le_mono)
  with Suc show ?case by simp
qed

lemma foldl_max_mod3: "foldl max 0 (map (\<lambda>j. j mod 3) [0 ..< n]) = min (n - 1) 2"
proof (induction n)
  case 0
  then show ?case by simp
next
  case (Suc n)
  have "max (min (n - 1) 2) (n mod 3) = min n 2"
  proof (cases "n < 3")
    case True
    then have "n = 0 \<or> n = 1 \<or> n = 2" by arith
    then show ?thesis by auto
  next
    case False
    then have "min (n - 1) 2 = 2" "min n 2 = 2" by simp_all
    moreover have "n mod 3 \<le> 2" by presburger
    ultimately show ?thesis by simp
  qed
  with Suc show ?case by simp
qed

lemma extract_fields:
  "referenceGroups (extractStructureFromMarkdown fs content repo)
     = place_from 0 [] (emitted_sections fs repo content)"
  "rows (extractStructureFromMarkdown fs content repo)
     = (if object_keys (place_from 0 [] (emitted_sections fs repo content)) \<noteq> []
        then (length (emitted_sections fs repo content) - 1) div 3 + 1 else 1)"
  "cols (extractStructureFromMarkdown fs content repo)
     = (if object_keys (place_from 0 [] (emitted_sections fs repo content)) \<noteq> []
        then min (min (length (emitted_sections fs repo content) - 1) 2 + 1) 3 else 1)"
proof -
  have init: "currentFiles initial_state = section_files fs repo []"
    by (simp add: initial_state_def)
  note loop = parse_loop_sections [OF init, of "split_lines content"]
  have st: "sectionIndex initial_state = 0" "p_referenceGroups initial_state = []"
    "p_name initial_state = placeholder" "currentSection initial_state = []"
    "maxRow initial_state = 0" "maxCol initial_state = 0"
    by (simp_all add: initial_state_def)
  from loop show "referenceGroups (extractStructureFromMarkdown fs content repo)
     = place_from 0 [] (emitted_sections fs repo content)"
    by (simp add: extractStructureFromMarkdown_def Let_def st initial_emitted)
  from loop show "rows (extractStructureFromMarkdown fs content repo)
     = (if object_keys (place_from 0 [] (emitted_sections fs repo content)) \<noteq> []
        then (length (emitted_sections fs repo content) - 1) div 3 + 1 else 1)"
    by (simp add: extractStructureFromMarkdown_def Let_def st initial_emitted foldl_max_div3)
  from loop show "cols (extractStructureFromMarkdown fs content repo)
     = (if object_keys (place_from 0 [] (emitted_sections fs repo content)) \<noteq> []
        then min (min (length (emitted_sections fs repo content) - 1) 2 + 1) 3 else 1)"
    by (simp add: extractStructureFromMarkdown_def Let_def st initial_emitted foldl_max_mod3)
qed

lemma set_js_set: "set (js_set obj k v) \<subseteq> insert (k, v) (set obj)"
  by (auto simp add: js_set_def split: if_splits)

lemma set_place_from:
  "(k, cell) \<in> set (place_from i obj secs) \<Longrightarrow>
   (k, cell) \<in> set obj \<or> (\<exists>j fls. (k, fls) \<in> set secs \<and> cell = grid_cell j fls)"
proof (induction secs arbitrary: i obj)
  case Nil
  then show ?case by simp
next
  case (Cons sec secs)
  obtain label fls where sec: "sec = (label, fls)" by (cases sec)
  from Cons.prems Cons.IH [of "Suc i" "js_set obj label (grid_cell i fls)"]
  have "(k, cell) \<in> set (js_set obj label (grid_cell i fls))
        \<or> (\<exists>j fls. (k, fls) \<in> set secs \<and> cell = grid_cell j fls)"
    by (simp add: sec)
  then show ?case using set_js_set [of obj label "grid_cell i fls"] by (auto simp add: sec)
qed

lemma js_set_fresh:
  "k \<noteq> ''__proto__'' \<Longrightarrow> k \<notin> fst ` set obj \<Longrightarrow> js_set obj k v = obj @ [(k, v)]"
  by (simp add: js_set_def)

lemma place_from_fresh:
  "distinct (map fst secs) \<Longrightarrow> \<forall>k \<in> set (map fst secs). k \<noteq> ''__proto__'' \<and> k \<notin> fst ` set obj \<Longrightarrow>
   place_from i obj secs = obj @ map (\<lambda>(j, (label, fls)). (label, grid_cell j fls)) (enumerate i secs)"
proof (induction secs arbitrary: i obj)
  case Nil
  then show ?case by simp
next
  case (Cons sec secs)
  obtain label fls where sec: "sec = (label, fls)" by (cases sec)
  have fresh: "js_set obj label (grid_cell i fls) = obj @ [(label, grid_cell i fls)]"
    using Cons.prems by (simp add: sec js_set_fresh)
  have d: "distinct (map fst secs)" using Cons.prems by simp
  have k: "\<forall>k \<in> set (map fst secs). k \<noteq> ''__proto__'' \<and> k \<notin> fst ` set (obj @ [(label, grid_cell i fls)])"
    using Cons.prems by (auto simp add: sec)
  show ?case
    using Cons.IH [OF d k, of "Suc i"] by (simp add: sec fresh)
qed

lemma object_entries_ordinary:
  "\<forall>k \<in> fst ` set obj. \<not> is_array_index k \<Longrightarrow> object_entries obj = obj"
proof -
  assume a: "\<forall>k \<in> fst ` set obj. \<not> is_array_index k"
  then have "filter (\<lambda>(k, v). is_array_index k) obj = []"
    by (auto simp add: filter_empty_conv)
  moreover from a have "filter (\<lambda>(k, v). \<not> is_array_index k) obj = obj"
    by (auto simp add: filter_id_conv)
  ultimately show ?thesis by (simp add: object_entries_def)
qed

lemma set_object_entries [simp]: "set (object_entries obj) = set obj"
  by (auto simp add: object_entries_def)

section \<open>Evaluations of the examples\<close>

lemma with_empty_section_sections:
  "document_sections (example_node scenario_disk) None with_empty_section
     = [([], []), (''A'', [''a.ts'', ''b.md'']), (''Empty'', []), (''C'', [''c.ts''])]"
  by code_simp

lemma no_references_sections:
  "document_sections (example_node scenario_disk) None no_references = [([], []), (''Empty'', [])]"
  by code_simp

lemma seven_sections_emitted:
  "emitted_sections (example_node seven_files) (Some ''/repo'') seven_sections
     = [(''A'', [''a.ts'']), (''B'', [''b.ts'']), (''C'', [''c.ts'']), (''D'', [''d.ts'']),
        (''E'', [''e.ts'']), (''F'', [''f.ts'']), (''G'', [''g.ts''])]"
  by code_simp

lemma repeated_label_groups:
  "referenceGroups (extractStructureFromMarkdown (example_node seven_files) repeated_label (Some ''/repo''))
     = [(''A'', \<lparr>coordinates = (1, 0), files = [''d.ts''], priority = 0\<rparr>),
        (''B'', \<lparr>coordinates = (0, 1), files = [''b.ts''], priority = 0\<rparr>),
        (''C'', \<lparr>coordinates = (0, 2), files = [''c.ts''], priority = 0\<rparr>),
        (''E'', \<lparr>coordinates = (1, 1), files = [''e.ts''], priority = 0\<rparr>),
        (''F'', \<lparr>coordinates = (1, 2), files = [''f.ts''], priority = 0\<rparr>),
        (''G'', \<lparr>coordinates = (2, 0), files = [''g.ts''], priority = 0\<rparr>)]"
  by code_simp

lemma letters_ordinary:
  "list_all ordinary_key [''A'', ''B'', ''C'', ''D'', ''E'', ''F'', ''G'']"
  by code_simp

lemma with_empty_section_groups:
  "object_entries (referenceGroups (extractStructureFromMarkdown (example_node scenario_disk) with_empty_section None))
     = [(''A'', \<lparr>coordinates = (0, 0), files = [''a.ts'', ''b.md''], priority = 0\<rparr>),
        (''C'', \<lparr>coordinates = (0, 1), files = [''c.ts''], priority = 0\<rparr>)]"
proof -
  have "referenceGroups (extractStructureFromMarkdown (example_node scenario_disk) with_empty_section None)
     = [(''A'', \<lparr>coordinates = (0, 0), files = [''a.ts'', ''b.md''], priority = 0\<rparr>),
        (''C'', \<lparr>coordinates = (0, 1), files = [''c.ts''], priority = 0\<rparr>)]"
    by (simp add: extract_fields(1) emitted_sections_def with_empty_section_sections js_set_def grid_cell_def)
  moreover have "object_entries
       [(''A'', \<lparr>coordinates = (0, 0), files = [''a.ts'', ''b.md''], priority = 0\<rparr>),
        (''C'', \<lparr>coordinates = (0 :: nat, 1 :: nat), files = [''c.ts''], priority = 0\<rparr>)]
     = [(''A'', \<lparr>coordinates = (0, 0), files = [''a.ts'', ''b.md''], priority = 0\<rparr>),
        (''C'', \<lparr>coordinates = (0, 1), files = [''c.ts''], priority = 0\<rparr>)]"
    by code_simp
  ultimately show ?thesis by simp
qed

lemma repeated_paths:
  "concat (map (candidates (example_node scenario_disk) None) [''[a](a.ts)'', ''[a](a.ts) [b](b.md)''])
     = [''a.ts'', ''a.ts'', ''b.md'']"
  by code_simp

section \<open>Sections and the grid\<close>

text \<open>
  C4.  The reference groups are the flushed sections placed one after the other from index
  0, where the flushed sections are the sections of the document without those that found
  no file: a section with zero files is not in \<open>referenceGroups\<close> and takes no grid index,
  so the next section with files gets the next coordinate.  No group of the result has an
  empty file list.  If no section is flushed, \<open>referenceGroups\<close> is empty and
  \<open>rows = cols = 1\<close>.
\<close>

theorem empty_sections_dropped:
  "referenceGroups (extractStructureFromMarkdown fs content repositoryPath)
     = place_from 0 [] (filter (\<lambda>(label, fls). label \<noteq> [] \<and> fls \<noteq> [])
                          (document_sections fs repositoryPath content))
   \<and> (\<forall>(label, cell) \<in> set (object_entries (referenceGroups (extractStructureFromMarkdown fs content repositoryPath))).
         files cell \<noteq> [])
   \<and> (filter (\<lambda>(label, fls). label \<noteq> [] \<and> fls \<noteq> []) (document_sections fs repositoryPath content) = []
        \<longrightarrow> referenceGroups (extractStructureFromMarkdown fs content repositoryPath) = []
            \<and> rows (extractStructureFromMarkdown fs content repositoryPath) = 1
            \<and> cols (extractStructureFromMarkdown fs content repositoryPath) = 1)"
proof -
  let ?em = "filter (\<lambda>(label, fls). label \<noteq> [] \<and> fls \<noteq> []) (document_sections fs repositoryPath content)"
  have em: "emitted_sections fs repositoryPath content = ?em"
    by (simp add: emitted_sections_def)
  have groups: "referenceGroups (extractStructureFromMarkdown fs content repositoryPath) = place_from 0 [] ?em"
    by (simp add: extract_fields(1) em)
  have nonempty: "files cell \<noteq> []"
    if "(label, cell) \<in> set (place_from 0 [] ?em)" for label cell
  proof -
    from set_place_from [OF that] obtain j fls
      where "(label, fls) \<in> set ?em" and "cell = grid_cell j fls" by auto
    then show ?thesis by (auto simp add: grid_cell_def)
  qed
  have none: "?em = [] \<longrightarrow> referenceGroups (extractStructureFromMarkdown fs content repositoryPath) = []
            \<and> rows (extractStructureFromMarkdown fs content repositoryPath) = 1
            \<and> cols (extractStructureFromMarkdown fs content repositoryPath) = 1"
    by (simp add: extract_fields em [symmetric] object_keys_def object_entries_def)
  show ?thesis
    using groups nonempty none by auto
qed

theorem empty_sections_dropped_witness:
  "document_sections (example_node scenario_disk) None with_empty_section
     = [([], []), (''A'', [''a.ts'', ''b.md'']), (''Empty'', []), (''C'', [''c.ts''])]
   \<and> referenceGroups (extractStructureFromMarkdown (example_node scenario_disk) with_empty_section None)
     = [(''A'', \<lparr>coordinates = (0, 0), files = [''a.ts'', ''b.md''], priority = 0\<rparr>),
        (''C'', \<lparr>coordinates = (0, 1), files = [''c.ts''], priority = 0\<rparr>)]
   \<and> filter (\<lambda>(label, fls). label \<noteq> [] \<and> fls \<noteq> [])
         (document_sections (example_node scenario_disk) None no_references) = []
   \<and> referenceGroups (extractStructureFromMarkdown (example_node scenario_disk) no_references None) = []
   \<and> rows (extractStructureFromMarkdown (example_node scenario_disk) no_references None) = 1
   \<and> cols (extractStructureFromMarkdown (example_node scenario_disk) no_references None) = 1"
proof -
  note a = with_empty_section_sections and b = no_references_sections
  show ?thesis
    using empty_sections_dropped [of "example_node scenario_disk" with_empty_section None]
          empty_sections_dropped [of "example_node scenario_disk" no_references None]
    by (simp add: a b js_set_def grid_cell_def)
qed

lemma map_placed:
  fixes secs :: "(string \<times> string list) list"
  assumes "\<And>j label fls. g (label, grid_cell j fls) = h j"
  shows "map g (map (\<lambda>(j, (label, fls)). (label, grid_cell j fls)) (enumerate 0 secs))
         = map h [0 ..< length secs]"
  by (rule nth_equalityI) (simp_all add: nth_enumerate_eq assms split: prod.splits)

lemma map_rows_enumerate:
  fixes secs :: "(string \<times> string list) list"
  shows "map (fst \<circ> coordinates \<circ> snd) (map (\<lambda>(j, (label, fls)). (label, grid_cell j fls)) (enumerate 0 secs))
     = map (\<lambda>j. j div 3) [0 ..< length secs]"
  and "map (snd \<circ> coordinates \<circ> snd) (map (\<lambda>(j, (label, fls)). (label, grid_cell j fls)) (enumerate 0 secs))
     = map (\<lambda>j. j mod 3) [0 ..< length secs]"
  and "map (coordinates \<circ> snd) (map (\<lambda>(j, (label, fls)). (label, grid_cell j fls)) (enumerate 0 secs))
     = map (\<lambda>j. (j div 3, j mod 3)) [0 ..< length secs]"
  by (rule map_placed, simp add: grid_cell_def)+

lemma upt_7: "[0 ..< 7] = [0, 1, 2, 3, 4, 5, 6 :: nat]"
  by code_simp

lemma placed_ordinary:
  assumes "distinct (map fst secs)" and "\<forall>label \<in> set (map fst secs). ordinary_key label"
  shows "object_entries (place_from 0 [] secs)
         = map (\<lambda>(j, (label, fls)). (label, grid_cell j fls)) (enumerate 0 secs)"
proof -
  have k: "\<forall>k \<in> set (map fst secs). k \<noteq> ''__proto__'' \<and> k \<notin> fst ` set []"
    using assms(2) by (simp add: ordinary_key_def)
  have p: "place_from 0 [] secs = map (\<lambda>(j, (label, fls)). (label, grid_cell j fls)) (enumerate 0 secs)"
    using place_from_fresh [OF assms(1) k, of 0] by simp
  have "\<not> is_array_index k" if "k \<in> fst ` set (place_from 0 [] secs)" for k
  proof -
    from that obtain j label fls where "(j, (label, fls)) \<in> set (enumerate 0 secs)" and "k = label"
      unfolding p by auto
    then have "(label, fls) \<in> set secs" and "k = label"
      by (auto simp add: in_set_enumerate_eq dest: nth_mem [of _ secs])
    then show ?thesis
      using assms(2) by (force simp add: ordinary_key_def)
  qed
  then have "\<forall>k \<in> fst ` set (place_from 0 [] secs). \<not> is_array_index k"
    by blast
  then show ?thesis
    using object_entries_ordinary [of "place_from 0 [] secs"] p by simp
qed

text \<open>
  C1 (as amended).  Let the flushed sections of a document have pairwise distinct labels, none
  of them \<open>__proto__\<close> or an array index.  Then the entries of \<open>referenceGroups\<close> are the
  flushed sections in heading order, the \<open>i\<close>-th with the coordinates \<open>(i div 3, i mod 3)\<close>;
  \<open>rows\<close> is the largest row assigned plus 1 and \<open>cols\<close> is the minimum of 3 and the
  largest column assigned plus 1; and with exactly 7 flushed sections the coordinates are
  \<open>[0,0], [0,1], [0,2], [1,0], [1,1], [1,2], [2,0]\<close> with \<open>rows = 3\<close> and \<open>cols = 3\<close>.
\<close>

theorem grid_assignment:
  assumes "distinct (map fst (emitted_sections fs repositoryPath content))"
      and "\<forall>label \<in> set (map fst (emitted_sections fs repositoryPath content)). ordinary_key label"
  shows "object_entries (referenceGroups (extractStructureFromMarkdown fs content repositoryPath))
           = map (\<lambda>(i, (label, fls)). (label, \<lparr>coordinates = (i div 3, i mod 3), files = fls, priority = 0\<rparr>))
               (enumerate 0 (emitted_sections fs repositoryPath content))
    \<and> rows (extractStructureFromMarkdown fs content repositoryPath)
        = foldl max 0 (map (fst \<circ> coordinates \<circ> snd)
            (object_entries (referenceGroups (extractStructureFromMarkdown fs content repositoryPath)))) + 1
    \<and> cols (extractStructureFromMarkdown fs content repositoryPath)
        = min (foldl max 0 (map (snd \<circ> coordinates \<circ> snd)
            (object_entries (referenceGroups (extractStructureFromMarkdown fs content repositoryPath)))) + 1) 3
    \<and> (length (emitted_sections fs repositoryPath content) = 7 \<longrightarrow>
         map (coordinates \<circ> snd)
           (object_entries (referenceGroups (extractStructureFromMarkdown fs content repositoryPath)))
           = [(0, 0), (0, 1), (0, 2), (1, 0), (1, 1), (1, 2), (2, 0)]
         \<and> rows (extractStructureFromMarkdown fs content repositoryPath) = 3
         \<and> cols (extractStructureFromMarkdown fs content repositoryPath) = 3)"
proof -
  let ?em = "emitted_sections fs repositoryPath content"
  let ?r = "extractStructureFromMarkdown fs content repositoryPath"
  let ?placed = "map (\<lambda>(j, (label, fls)). (label, grid_cell j fls)) (enumerate 0 ?em)"
  have entries: "object_entries (referenceGroups ?r) = ?placed"
    using placed_ordinary [OF assms] by (simp add: extract_fields(1))
  have keys: "object_keys (place_from 0 [] ?em) \<noteq> [] \<longleftrightarrow> ?em \<noteq> []"
    using placed_ordinary [OF assms] by (simp add: object_keys_def enumerate_eq_zip)
  have rows: "rows ?r = (length ?em - 1) div 3 + 1"
    by (simp add: extract_fields(2) keys)
  have cols: "cols ?r = min (min (length ?em - 1) 2 + 1) 3"
    by (simp add: extract_fields(3) keys)
  have c1: "object_entries (referenceGroups ?r)
           = map (\<lambda>(i, (label, fls)). (label, \<lparr>coordinates = (i div 3, i mod 3), files = fls, priority = 0\<rparr>))
               (enumerate 0 ?em)"
    by (simp add: entries grid_cell_def)
  have c2: "rows ?r = foldl max 0 (map (fst \<circ> coordinates \<circ> snd) (object_entries (referenceGroups ?r))) + 1"
    by (simp only: entries map_rows_enumerate foldl_max_div3 rows)
  have c3: "cols ?r = min (foldl max 0 (map (snd \<circ> coordinates \<circ> snd) (object_entries (referenceGroups ?r))) + 1) 3"
    by (simp only: entries map_rows_enumerate foldl_max_mod3 cols)
  have c4: "length ?em = 7 \<longrightarrow>
         map (coordinates \<circ> snd) (object_entries (referenceGroups ?r))
           = [(0, 0), (0, 1), (0, 2), (1, 0), (1, 1), (1, 2), (2, 0)]
         \<and> rows ?r = 3 \<and> cols ?r = 3"
  proof
    assume n: "length ?em = 7"
    have "map (coordinates \<circ> snd) (object_entries (referenceGroups ?r))
            = map (\<lambda>j. (j div 3, j mod 3)) [0, 1, 2, 3, 4, 5, 6]"
      by (simp only: entries map_rows_enumerate n upt_7)
    then show "map (coordinates \<circ> snd) (object_entries (referenceGroups ?r))
           = [(0, 0), (0, 1), (0, 2), (1, 0), (1, 1), (1, 2), (2, 0)]
         \<and> rows ?r = 3 \<and> cols ?r = 3"
      by (simp add: rows cols n)
  qed
  from c1 c2 c3 c4 show ?thesis by blast
qed

theorem grid_assignment_witness:
  "distinct (map fst (emitted_sections (example_node seven_files) (Some ''/repo'') seven_sections))
   \<and> list_all ordinary_key
         (map fst (emitted_sections (example_node seven_files) (Some ''/repo'') seven_sections))
   \<and> length (emitted_sections (example_node seven_files) (Some ''/repo'') seven_sections) = 7
   \<and> map (coordinates \<circ> snd)
        (object_entries (referenceGroups
           (extractStructureFromMarkdown (example_node seven_files) seven_sections (Some ''/repo''))))
        = [(0, 0), (0, 1), (0, 2), (1, 0), (1, 1), (1, 2), (2, 0)]
   \<and> rows (extractStructureFromMarkdown (example_node seven_files) seven_sections (Some ''/repo'')) = 3
   \<and> cols (extractStructureFromMarkdown (example_node seven_files) seven_sections (Some ''/repo'')) = 3"
proof -
  let ?em = "emitted_sections (example_node seven_files) (Some ''/repo'') seven_sections"
  have d: "distinct (map fst ?em)"
    by (simp add: seven_sections_emitted)
  have l: "list_all ordinary_key (map fst ?em)"
    using letters_ordinary by (simp add: seven_sections_emitted)
  then have o: "\<forall>label \<in> set (map fst ?em). ordinary_key label"
    by (simp only: list_all_iff)
  have n: "length ?em = 7"
    by (simp add: seven_sections_emitted)
  from grid_assignment [OF d o] d l n show ?thesis by blast
qed

text \<open>
  The claim as stated, for every document with 7 section headings that each hold a reference
  to an existing file, fails where a label repeats: the group of the repeated label is
  overwritten, and six groups are left.
\<close>

theorem grid_assignment_counterexample:
  "map (coordinates \<circ> snd)
     (object_entries (referenceGroups
        (extractStructureFromMarkdown (example_node seven_files) repeated_label (Some ''/repo''))))
     = [(1, 0), (0, 1), (0, 2), (1, 1), (1, 2), (2, 0)]
   \<and> map (coordinates \<circ> snd)
     (object_entries (referenceGroups
        (extractStructureFromMarkdown (example_node seven_files) repeated_label (Some ''/repo''))))
     \<noteq> [(0, 0), (0, 1), (0, 2), (1, 0), (1, 1), (1, 2), (2, 0)]"
proof -
  have "object_entries (referenceGroups
        (extractStructureFromMarkdown (example_node seven_files) repeated_label (Some ''/repo'')))
        = referenceGroups
        (extractStructureFromMarkdown (example_node seven_files) repeated_label (Some ''/repo''))"
    unfolding repeated_label_groups by code_simp
  then show ?thesis by (simp add: repeated_label_groups)
qed

section \<open>The files of a section\<close>

text \<open>
  C6.  Every group of the result belongs to a section of the document, and its \<open>files\<close> are
  the paths found on the lines of that section, pattern by pattern and line by line, without
  repetitions: the list is duplicate-free and every path stands where it was first found.
\<close>

theorem files_duplicate_free:
  "\<forall>(label, cell) \<in> set (object_entries (referenceGroups (extractStructureFromMarkdown fs content repositoryPath))).
     distinct (files cell)
     \<and> (\<exists>body. (label, body) \<in> set (document_bodies content)
          \<and> files cell = first_seen (concat (map (candidates fs repositoryPath) body)))"
proof -
  have "distinct (files cell)
     \<and> (\<exists>body. (label, body) \<in> set (document_bodies content)
          \<and> files cell = first_seen (concat (map (candidates fs repositoryPath) body)))"
    if "(label, cell) \<in> set (place_from 0 [] (emitted_sections fs repositoryPath content))" for label cell
  proof -
    from set_place_from [OF that] obtain j fls
      where m: "(label, fls) \<in> set (emitted_sections fs repositoryPath content)" and c: "cell = grid_cell j fls"
      by auto
    from m obtain body where "(label, body) \<in> set (document_bodies content)"
      and "fls = section_files fs repositoryPath body"
      by (auto simp add: emitted_sections_def document_sections_def)
    then show ?thesis
      by (auto simp add: c grid_cell_def section_files_def)
  qed
  then show ?thesis by (auto simp add: extract_fields(1))
qed

theorem files_duplicate_free_witness:
  "object_entries (referenceGroups
       (extractStructureFromMarkdown (example_node scenario_disk) with_empty_section None))
     = [(''A'', \<lparr>coordinates = (0, 0), files = [''a.ts'', ''b.md''], priority = 0\<rparr>),
        (''C'', \<lparr>coordinates = (0, 1), files = [''c.ts''], priority = 0\<rparr>)]
   \<and> concat (map (candidates (example_node scenario_disk) None) [''[a](a.ts)'', ''[a](a.ts) [b](b.md)''])
     = [''a.ts'', ''a.ts'', ''b.md'']
   \<and> distinct [''a.ts'', ''b.md'']
   \<and> (\<exists>body. (''A'', body) \<in> set (document_bodies with_empty_section)
          \<and> [''a.ts'', ''b.md''] = first_seen (concat (map (candidates (example_node scenario_disk) None) body)))
   \<and> (\<exists>body. (''C'', body) \<in> set (document_bodies with_empty_section)
          \<and> [''c.ts''] = first_seen (concat (map (candidates (example_node scenario_disk) None) body)))"
proof -
  have "\<forall>(label, cell) \<in> set [(''A'', \<lparr>coordinates = (0, 0), files = [''a.ts'', ''b.md''], priority = 0\<rparr>),
                            (''C'', \<lparr>coordinates = (0, 1), files = [''c.ts''], priority = 0\<rparr>)].
     distinct (files cell)
     \<and> (\<exists>body. (label, body) \<in> set (document_bodies with_empty_section)
          \<and> files cell = first_seen (concat (map (candidates (example_node scenario_disk) None) body)))"
    using files_duplicate_free [of "example_node scenario_disk" with_empty_section None]
    by (simp only: with_empty_section_groups)
  then show ?thesis
    using repeated_paths with_empty_section_groups by simp
qed

section \<open>Title and description\<close>

lemma startsWith_prefix: "startsWith l (p @ q) \<Longrightarrow> startsWith l p"
proof -
  assume "startsWith l (p @ q)"
  then have "take (length p) (take (length (p @ q)) l) = take (length p) (p @ q)"
    by (simp add: startsWith_def)
  then show ?thesis by (simp add: startsWith_def min_def)
qed

lemma heading_starts_with_hash:
  "is_section_heading l \<Longrightarrow> startsWith l ''#''"
  "is_title_line l \<Longrightarrow> startsWith l ''#''"
  using startsWith_prefix [of l "''#''" "''# ''"] startsWith_prefix [of l "''#''" "''## ''"]
        startsWith_prefix [of l "''#''" "'' ''"]
  by (auto simp add: is_section_heading_def is_title_line_def)

lemma text_line_no_heading:
  "is_text_line l \<Longrightarrow> \<not> is_section_heading l"
  using heading_starts_with_hash(1) by (auto simp add: is_text_line_def)

lemma save_section_text [simp]:
  "p_name (save_section st) = p_name st"
  "p_description (save_section st) = p_description st"
  "inDescription (save_section st) = inDescription st"
  by (simp_all add: save_section_def Let_def)

lemma parse_line_title:
  "is_title_line (trim raw) \<Longrightarrow> p_name st = placeholder \<Longrightarrow>
   parse_line fs repo st raw = st\<lparr>p_name := title_text (trim raw), inDescription := True\<rparr>"
  by (simp add: parse_line_def is_title_line_def title_text_def)

lemma parse_line_other:
  "\<not> (is_title_line (trim raw) \<and> p_name st = placeholder) \<Longrightarrow>
   p_name (parse_line fs repo st raw) = p_name st
   \<and> p_description (parse_line fs repo st raw) = p_description (describe_line (trim raw) st)
   \<and> inDescription (parse_line fs repo st raw) = inDescription (describe_line (trim raw) st)"
  by (auto simp add: parse_line_def is_title_line_def Let_def)

lemma description_off:
  "\<not> inDescription st \<Longrightarrow> p_name st \<noteq> placeholder \<Longrightarrow>
   p_description (foldl (parse_line fs repo) st lines) = p_description st
   \<and> p_name (foldl (parse_line fs repo) st lines) = p_name st"
proof (induction lines arbitrary: st)
  case Nil
  then show ?case by simp
next
  case (Cons raw lines)
  define st' where "st' = parse_line fs repo st raw"
  have "p_name st' = p_name st \<and> p_description st' = p_description st \<and> \<not> inDescription st'"
    using Cons.prems parse_line_other [of raw st fs repo]
    by (simp add: st'_def describe_line_def)
  then show ?case
    using Cons.IH [of st'] Cons.prems by (simp add: st'_def [symmetric])
qed

lemma description_on:
  "inDescription st \<Longrightarrow> p_name st \<noteq> placeholder \<Longrightarrow>
   p_description (foldl (parse_line fs repo) st lines)
     = foldl join_line (p_description st) (takeWhile is_text_line (map trim lines))
   \<and> p_name (foldl (parse_line fs repo) st lines) = p_name st"
proof (induction lines arbitrary: st)
  case Nil
  then show ?case by simp
next
  case (Cons raw lines)
  define st' where "st' = parse_line fs repo st raw"
  note other = parse_line_other [of raw st fs repo]
  show ?case
  proof (cases "is_text_line (trim raw)")
    case True
    have "p_name st' = p_name st \<and> p_description st' = join_line (p_description st) (trim raw)
          \<and> inDescription st'"
      using Cons.prems other True
      by (simp add: st'_def describe_line_def is_text_line_def join_line_def)
    then show ?thesis
      using Cons.IH [of st'] Cons.prems True by (simp add: st'_def [symmetric])
  next
    case False
    have "p_name st' = p_name st \<and> p_description st' = p_description st \<and> \<not> inDescription st'"
      using Cons.prems other False
      by (auto simp add: st'_def describe_line_def is_text_line_def)
    then show ?thesis
      using description_off [of st' fs repo lines] Cons.prems False by (simp add: st'_def [symmetric])
  qed
qed

lemma before_title:
  "p_name st = placeholder \<Longrightarrow> \<not> inDescription st \<Longrightarrow> \<forall>l \<in> set lines. \<not> is_title_line (trim l) \<Longrightarrow>
   p_name (foldl (parse_line fs repo) st lines) = placeholder
   \<and> \<not> inDescription (foldl (parse_line fs repo) st lines)
   \<and> p_description (foldl (parse_line fs repo) st lines) = p_description st"
proof (induction lines arbitrary: st)
  case Nil
  then show ?case by simp
next
  case (Cons raw lines)
  define st' where "st' = parse_line fs repo st raw"
  have "p_name st' = placeholder \<and> p_description st' = p_description st \<and> \<not> inDescription st'"
    using Cons.prems parse_line_other [of raw st fs repo]
    by (simp add: st'_def describe_line_def)
  then show ?case
    using Cons.IH [of st'] Cons.prems by (simp add: st'_def [symmetric])
qed

lemma space_join_Cons:
  "space_join (l # ls) = (if ls = [] then l else l @ '' '' @ space_join ls)"
  by (cases ls) simp_all

lemma foldl_join_line:
  "\<forall>l \<in> set ls. l \<noteq> [] \<Longrightarrow>
   foldl join_line d ls = (if d = [] then space_join ls else space_join (d # ls))"
proof (induction ls arbitrary: d)
  case Nil
  then show ?case by simp
next
  case (Cons l ls)
  have ne: "join_line d l \<noteq> []"
    using Cons.prems by (simp add: join_line_def)
  have "foldl join_line d (l # ls) = space_join (join_line d l # ls)"
    using Cons.IH [of "join_line d l"] Cons.prems ne by simp
  also have "\<dots> = (if d = [] then space_join (l # ls) else space_join (d # l # ls))"
    by (simp add: space_join_Cons join_line_def)
  finally show ?case .
qed

lemma space_join_empty:
  "\<forall>l \<in> set ls. l \<noteq> [] \<Longrightarrow> space_join ls = [] \<longleftrightarrow> ls = []"
  by (induction ls rule: space_join.induct) simp_all

lemma description_of_document:
  assumes "level1_titles (document_lines content) \<noteq> []"
      and "hd (level1_titles (document_lines content)) \<noteq> placeholder"
  shows "description (extractStructureFromMarkdown fs content repositoryPath)
         = (if first_paragraph (document_lines content) = [] then default_description
            else space_join (first_paragraph (document_lines content)))"
proof -
  let ?lines = "split_lines content"
  let ?pre = "takeWhile (\<lambda>l. \<not> is_title_line (trim l)) ?lines"
  let ?rest = "dropWhile (\<lambda>l. \<not> is_title_line (trim l)) ?lines"
  have titles: "filter is_title_line (map trim ?lines) \<noteq> []"
    using assms(1) by (simp add: level1_titles_def document_lines_def)
  then have "?rest \<noteq> []"
    by (auto simp add: filter_empty_conv dropWhile_eq_Nil_conv)
  then obtain h post where rest: "?rest = h # post"
    by (cases ?rest) auto
  have h: "is_title_line (trim h)"
    using hd_dropWhile [of "\<lambda>l. \<not> is_title_line (trim l)" ?lines] rest by auto
  have split: "?lines = ?pre @ h # post"
    using takeWhile_dropWhile_id [of "\<lambda>l. \<not> is_title_line (trim l)" ?lines] rest by simp
  have pre: "\<forall>l \<in> set ?pre. \<not> is_title_line (trim l)"
    by (auto dest: set_takeWhileD)
  have "filter is_title_line (map trim ?lines) = filter is_title_line (map trim ?pre) @ trim h # filter is_title_line (map trim post)"
    using h by (subst split) simp
  moreover have "filter is_title_line (map trim ?pre) = []"
    using pre by (auto simp add: filter_empty_conv)
  ultimately have first: "hd (level1_titles (document_lines content)) = title_text (trim h)"
    by (simp add: level1_titles_def document_lines_def)
  have after: "after_title (document_lines content) = map trim post"
    by (simp add: after_title_def document_lines_def dropWhile_map comp_def rest)
  define s1 where "s1 = foldl (parse_line fs repositoryPath) initial_state ?pre"
  define s2 where "s2 = parse_line fs repositoryPath s1 h"
  have s1: "p_name s1 = placeholder" "\<not> inDescription s1" "p_description s1 = []"
    using before_title [of initial_state ?pre fs repositoryPath] pre
    by (simp_all add: s1_def initial_state_def)
  have s2: "inDescription s2" "p_name s2 \<noteq> placeholder" "p_description s2 = []"
    using parse_line_title [OF h s1(1), of fs repositoryPath] s1 assms(2) first
    by (simp_all add: s2_def)
  have run: "foldl (parse_line fs repositoryPath) initial_state ?lines
             = foldl (parse_line fs repositoryPath) s2 post"
    by (subst split) (simp add: s1_def s2_def)
  have para: "\<forall>l \<in> set (first_paragraph (document_lines content)). l \<noteq> []"
    by (auto simp add: first_paragraph_def is_text_line_def dest: set_takeWhileD)
  have "p_description (foldl (parse_line fs repositoryPath) initial_state ?lines)
        = foldl join_line [] (first_paragraph (document_lines content))"
    using description_on [OF s2(1,2), of fs repositoryPath post]
    by (simp add: run s2(3) first_paragraph_def after)
  also have "\<dots> = space_join (first_paragraph (document_lines content))"
    using foldl_join_line [OF para, of "[]"] by simp
  finally have "p_description (foldl (parse_line fs repositoryPath) initial_state ?lines)
        = space_join (first_paragraph (document_lines content))" .
  then show ?thesis
    using space_join_empty [OF para]
    by (simp add: extractStructureFromMarkdown_def Let_def)
qed

lemma two_line_intro_text:
  "level1_titles (document_lines two_line_intro) = [''Title'']"
  "first_paragraph (document_lines two_line_intro) = [''First line.'', ''Second line.'']"
  by code_simp+

lemma late_paragraph_text:
  "level1_titles (document_lines late_paragraph) = [''Title'']"
  "first_paragraph (document_lines late_paragraph) = []"
  by code_simp+

lemma placeholder_differs: "''Title'' \<noteq> placeholder" "''Real Title'' \<noteq> placeholder"
  by (simp_all add: placeholder_def)

lemma placeholder_title_text:
  "level1_titles (document_lines placeholder_title) = [''Codebase View'', ''Real Title'']"
  by code_simp

text \<open>
  C3 (as amended).  For every markdown document whose first level-1 heading has a text other
  than the placeholder: the description is the space-joined concatenation of the trimmed
  lines of the first paragraph, the consecutive lines right after that heading that are
  neither blank nor begin with \<open>#\<close>, when there is at least one such line, and the default
  text \<open>Codebase view extracted from documentation\<close> when there is none.  Capture ends at
  the first blank line or line beginning with \<open>#\<close>; later paragraphs add nothing.
\<close>

theorem description_is_first_paragraph:
  assumes "level1_titles (document_lines content) \<noteq> []"
      and "hd (level1_titles (document_lines content)) \<noteq> placeholder"
  shows "description (extractStructureFromMarkdown fs content repositoryPath)
         = (if first_paragraph (document_lines content) = [] then default_description
            else space_join (first_paragraph (document_lines content)))"
  using assms by (rule description_of_document)

theorem description_is_first_paragraph_witness:
  "level1_titles (document_lines two_line_intro) \<noteq> []
   \<and> hd (level1_titles (document_lines two_line_intro)) \<noteq> placeholder
   \<and> description (extractStructureFromMarkdown (example_node scenario_disk) two_line_intro None)
      = ''First line. Second line.''"
  using description_is_first_paragraph [of two_line_intro "example_node scenario_disk" None]
  by (simp add: two_line_intro_text placeholder_differs)

text \<open>
  The claim as stated fails when no line follows the title directly: the concatenation of
  no lines is the empty string, and the description returned is the default text.
\<close>

theorem description_counterexample:
  "space_join (first_paragraph (document_lines late_paragraph)) = []
   \<and> description (extractStructureFromMarkdown (example_node scenario_disk) late_paragraph None)
      = ''Codebase view extracted from documentation''
   \<and> description (extractStructureFromMarkdown (example_node scenario_disk) late_paragraph None)
      \<noteq> space_join (first_paragraph (document_lines late_paragraph))"
  using description_of_document [of late_paragraph "example_node scenario_disk" None]
  by (simp add: late_paragraph_text placeholder_differs default_description_def)

lemma name_loop:
  "p_name (foldl (parse_line fs repo) st lines)
     = (if p_name st = placeholder
        then (case filter (\<lambda>t. t \<noteq> placeholder) (level1_titles (map trim lines)) of
                [] \<Rightarrow> placeholder | t # _ \<Rightarrow> t)
        else p_name st)"
proof (induction lines arbitrary: st)
  case Nil
  then show ?case by (simp add: level1_titles_def)
next
  case (Cons raw lines)
  define st' where "st' = parse_line fs repo st raw"
  show ?case
  proof (cases "is_title_line (trim raw) \<and> p_name st = placeholder")
    case True
    then have "p_name st' = title_text (trim raw)"
      using parse_line_title [of raw st fs repo] by (simp add: st'_def)
    then show ?thesis
      using Cons.IH [of st'] True by (simp add: st'_def [symmetric] level1_titles_def)
  next
    case False
    then have "p_name st' = p_name st"
      using parse_line_other [of raw st fs repo] by (simp add: st'_def)
    then show ?thesis
      using Cons.IH [of st'] False by (auto simp add: st'_def [symmetric] level1_titles_def)
  qed
qed

lemma title_is_first_real_heading:
  "name (extractStructureFromMarkdown fs content repositoryPath)
     = (case filter (\<lambda>t. t \<noteq> placeholder) (level1_titles (document_lines content)) of
          [] \<Rightarrow> placeholder
        | t # _ \<Rightarrow> if t \<noteq> [] then t else placeholder)"
  using name_loop [of fs repositoryPath initial_state "split_lines content"]
  by (simp add: extractStructureFromMarkdown_def Let_def document_lines_def initial_state_def
        placeholder_def split: list.splits)

text \<open>
  C2, at a document whose first level-1 heading reads \<open>Codebase View\<close>: the title returned
  is the text of the second level-1 heading, not of the first.  (Lemma
  \<open>title_is_first_real_heading\<close> is what the loop computes for every document: the text of
  the first level-1 heading that differs from the placeholder.)
\<close>

theorem title_after_placeholder_heading:
  "hd (level1_titles (document_lines placeholder_title)) = ''Codebase View''
   \<and> name (extractStructureFromMarkdown (example_node scenario_disk) placeholder_title None) = ''Real Title''"
  by (simp add: title_is_first_real_heading placeholder_title_text placeholder_def)

section \<open>The existence filter\<close>

lemma existence_filter:
  "repo \<noteq> [] \<Longrightarrow> accepted fs (Some repo) caps
     = filter (\<lambda>p. existsSync fs (path_join fs repo p)) (accepted fs None caps)"
  "accepted fs (Some []) caps = accepted fs None caps"
  by (simp_all add: accepted_def split: option.splits)

text \<open>
  C5, at the scenario of the specification (\<open>src/a.ts\<close> on disk, \<open>src/b.ts\<close> not): without
  a repository path Section A gets the file list \<open>["ts"]\<close>, because \<open>match[2]\<close> of the
  inline-code pattern is the extension group; with the repository path \<open>ts\<close> does not exist,
  so no section is left at all.
\<close>

theorem scenario_extraction:
  "referenceGroups (extractStructureFromMarkdown (example_node scenario_disk) scenario_document None)
     = [(''Section A'', \<lparr>coordinates = (0, 0), files = [''ts''], priority = 0\<rparr>)]
   \<and> referenceGroups (extractStructureFromMarkdown (example_node scenario_disk) scenario_document (Some ''/repo''))
     = []"
  by code_simp

section \<open>Views from documents\<close>

lemma extracted_name_nonempty: "name (extractStructureFromMarkdown fs content repo) \<noteq> []"
  by (simp add: extractStructureFromMarkdown_def Let_def placeholder_def)

lemma resolve_view_name_cases:
  "name extracted \<noteq> [] \<Longrightarrow>
   resolve_view_name options extracted docInfo
     = (if supplied_name options \<noteq> [] \<and> supplied_name options \<noteq> ''Codebase View'' then supplied_name options
        else if supplied_name options = [] \<and> name extracted \<noteq> ''Codebase View'' then name extracted
        else generateViewNameFromPath (filePath docInfo))"
  by (auto simp add: resolve_view_name_def or_else_def supplied_name_def Let_def split: option.splits)

lemma failure_fields [simp]:
  "\<not> success (failure d msg)" "res_file (failure d msg) = filePath d"
  by (simp_all add: failure_def)

lemma result_errors [simp]:
  "error (failure d msg) = Some msg" "error (created d v n stored) = None"
  by (simp_all add: failure_def created_def)

lemma created_fields [simp]:
  "success (created d v n stored)" "res_file (created d v n stored) = filePath d"
  "viewName (created d v n stored) = Some (view_name v)"
  by (simp_all add: created_def)

lemma create_in_try_success:
  assumes "create_in_try h c repositoryPath docInfo options = (r, w')" and "success r"
  shows "\<exists>relPath content. validateRelativePath h c repositoryPath (fullPath docInfo) = Inr relPath
           \<and> readFileSync h c (fullPath docInfo) = Inr content
           \<and> viewName r = Some (resolve_view_name options
                 (extractStructureFromMarkdown (node h c) content (Some repositoryPath)) docInfo)"
  using assms
  by (auto simp add: create_in_try_def Let_def build_view_def split: sum.splits if_splits prod.splits)

lemma created_view_name:
  assumes "createViewFromDocument h w repositoryPath docInfo options = (Inr r, w')" and "success r"
  shows "\<exists>c content. construct h w repositoryPath = (Inr (), c)
           \<and> readFileSync h c (fullPath docInfo) = Inr content
           \<and> viewName r = Some
               (let title = name (extractStructureFromMarkdown (node h c) content (Some repositoryPath)) in
                if supplied_name options \<noteq> [] \<and> supplied_name options \<noteq> ''Codebase View''
                then supplied_name options
                else if supplied_name options = [] \<and> title \<noteq> ''Codebase View'' then title
                else generateViewNameFromPath (filePath docInfo))"
proof -
  from assms(1) obtain c where c: "construct h w repositoryPath = (Inr (), c)"
    and t: "create_in_try h c repositoryPath docInfo options = (r, w')"
    by (auto simp add: createViewFromDocument_def split: prod.splits sum.splits)
  from create_in_try_success [OF t assms(2)] obtain relPath content
    where "readFileSync h c (fullPath docInfo) = Inr content"
      and "viewName r = Some (resolve_view_name options
                 (extractStructureFromMarkdown (node h c) content (Some repositoryPath)) docInfo)"
    by blast
  then show ?thesis
    using c by (auto simp add: resolve_view_name_cases extracted_name_nonempty Let_def)
qed

lemma build_view_name:
  "view_name (build_view h c options extracted d rel) = resolve_view_name options extracted d"
  by (simp add: build_view_def Let_def)

lemma dry_run_result:
  "construct h w repositoryPath = (Inr (), c) \<Longrightarrow>
   validateRelativePath h c repositoryPath (fullPath d) = Inr rel \<Longrightarrow>
   adapter_exists h c (fullPath d) \<Longrightarrow> readFileSync h c (fullPath d) = Inr content \<Longrightarrow>
   dryRun options \<Longrightarrow>
   createViewFromDocument h w repositoryPath d options
     = (Inr (created d (build_view h c options
                (extractStructureFromMarkdown (node h c) content (Some repositoryPath)) d rel) None
              (build_view h c options
                (extractStructureFromMarkdown (node h c) content (Some repositoryPath)) d rel)), c)"
  by (simp add: createViewFromDocument_def create_in_try_def Let_def)

lemma guide_steps:
  "construct example_host guide_world ''/repo'' = (Inr (), guide_world)"
  "validateRelativePath example_host guide_world ''/repo'' (fullPath guide_document) = Inr ''docs/user-guide.md''"
  "adapter_exists example_host guide_world (fullPath guide_document)"
  "readFileSync example_host guide_world (fullPath guide_document) = Inr (text_of [''# My View'', ''Intro.''])"
  by code_simp+

lemma user_guide_name: "generateViewNameFromPath ''docs/user-guide.md'' = ''Docs - User Guide''"
  by code_simp

lemma view_names_from_paths:
  "generateViewNameFromPath ''README.md'' = ''README''"
  "generateViewNameFromPath ''docs/getting_started/quick-start.md'' = ''Docs Getting Started - Quick Start''"
  by code_simp+

lemma guide_title:
  "name (extractStructureFromMarkdown (node example_host guide_world) (text_of [''# My View'', ''Intro.''])
     (Some ''/repo'')) = ''My View''"
proof -
  have "level1_titles (document_lines (text_of [''# My View'', ''Intro.''])) = [''My View'']"
    by code_simp
  then show ?thesis
    by (simp add: title_is_first_real_heading placeholder_def)
qed

lemma supplied_name_used:
  "createViewFromDocument example_host guide_world ''/repo'' guide_document (named (Some ''Handbook''))
     = (Inr r, w') \<Longrightarrow> viewName r = Some ''Handbook''"
proof -
  assume run: "createViewFromDocument example_host guide_world ''/repo'' guide_document
                 (named (Some ''Handbook'')) = (Inr r, w')"
  have dry: "dryRun (named (Some ''Handbook''))"
    by (simp add: named_def)
  from run have "success r"
    by (auto simp add: dry_run_result [OF guide_steps dry])
  from created_view_name [OF run this] show ?thesis
    by (auto simp add: supplied_name_def named_def Let_def)
qed

text \<open>
  C7, at an invocation that supplies the name \<open>Codebase View\<close> for a document whose title
  is \<open>My View\<close>: the view is named \<open>Docs - User Guide\<close>, after the path of the document,
  which is neither the supplied name nor the title.  The guard of line 161 compares the
  merged value \<open>options.name || extracted.name\<close> with the placeholder, so it replaces a
  supplied name as well as an extracted one.  (Lemma \<open>created_view_name\<close> is what the
  function computes for every invocation that builds a view.)
\<close>

theorem supplied_name_replaced:
  "opt_name (named (Some ''Codebase View'')) = Some ''Codebase View''
   \<and> filePath guide_document = ''docs/user-guide.md''
   \<and> readFileSync example_host guide_world (fullPath guide_document)
        = Inr (text_of [''# My View'', ''Intro.''])
   \<and> name (extractStructureFromMarkdown (node example_host guide_world)
              (text_of [''# My View'', ''Intro.'']) (Some ''/repo'')) = ''My View''
   \<and> \<not> isl (fst (createViewFromDocument example_host guide_world ''/repo'' guide_document
                  (named (Some ''Codebase View''))))
   \<and> success (projr (fst (createViewFromDocument example_host guide_world ''/repo'' guide_document
                  (named (Some ''Codebase View'')))))
   \<and> viewName (projr (fst (createViewFromDocument example_host guide_world ''/repo'' guide_document
                  (named (Some ''Codebase View''))))) = Some ''Docs - User Guide''"
proof -
  have dry: "dryRun (named (Some ''Codebase View''))"
    by (simp add: named_def)
  have "resolve_view_name (named (Some ''Codebase View''))
          (extractStructureFromMarkdown (node example_host guide_world) (text_of [''# My View'', ''Intro.''])
             (Some ''/repo'')) guide_document = ''Docs - User Guide''"
    by (simp add: resolve_view_name_cases extracted_name_nonempty supplied_name_def named_def
          guide_document_def user_guide_name)
  then have "\<not> isl (fst (createViewFromDocument example_host guide_world ''/repo'' guide_document
                  (named (Some ''Codebase View''))))
   \<and> success (projr (fst (createViewFromDocument example_host guide_world ''/repo'' guide_document
                  (named (Some ''Codebase View'')))))
   \<and> viewName (projr (fst (createViewFromDocument example_host guide_world ''/repo'' guide_document
                  (named (Some ''Codebase View''))))) = Some ''Docs - User Guide''"
    by (simp add: dry_run_result [OF guide_steps dry] build_view_name)
  moreover have "opt_name (named (Some ''Codebase View'')) = Some ''Codebase View''"
    by (simp add: named_def)
  moreover have "filePath guide_document = ''docs/user-guide.md''"
    by (simp add: guide_document_def)
  ultimately show ?thesis
    using guide_steps(4) guide_title by simp
qed








lemma constructor_throws:
  "construct h w repositoryPath = (Inl e, w') \<Longrightarrow>
   createViewsFromDocuments h w repositoryPath (d # documents) options = (Inl e, w')"
  by (simp add: createViewsFromDocuments_def createViewFromDocument_def)









end
